theory Spec2Isabelle
  imports Complex_Main "HOL-Library.Word"
begin

section \<open>Data model\<close>

text \<open>
  The editor keeps its drawables in a fabric canvas. A drawable (a \<open>FabricImage\<close> or a
  \<open>Rect\<close>) is a JavaScript object, compared by identity; here it is a handle, and the
  properties the code reads and writes live in a store indexed by the handle. JavaScript
  numbers are taken as reals (no NaN, no infinities, no rounding).
\<close>

type_synonym obj = nat

text \<open>The six properties of a selection rectangle that the code saves and restores.\<close>

record geometry =
  left :: real
  top' :: real
  scaleX :: real
  scaleY :: real
  width :: real
  height :: real

text \<open>\<open>SelectionData\<close> of Canvas.tsx, without the four optional screen coordinates.\<close>

record selection_data =
  sel_x :: real
  sel_y :: real
  sel_width :: real
  sel_height :: real

text \<open>\<open>DocumentOrigin\<close> of CropAction.\<close>

record document_origin =
  origin_x :: real
  origin_y :: real

text \<open>\<open>ObjectPositionData\<close> of CropAction.\<close>

record object_position =
  pos_object :: obj
  pos_left :: real
  pos_top :: real

subsection \<open>The layer store (store.ts)\<close>

record mask_info =
  dataUrl :: string
  mask_visible :: bool

record layer =
  layer_id :: string
  name :: string
  visible :: bool
  locked :: bool
  opacity :: real
  blendMode :: string
  canvasObjectId :: "string option"
  thumbnail :: "string option"
  layer_mask :: "mask_info option"
  filters :: "(string \<times> real) list option"

datatype tool = Move | Select | CropTool

text \<open>
  \<open>setLayerMask\<close>: the layer with the given id loses its mask when the data is
  \<open>null\<close>, and otherwise gets a mask with that data, visible.
\<close>

definition setLayerMask :: "string \<Rightarrow> string option \<Rightarrow> layer list \<Rightarrow> layer list" where
  "setLayerMask layerId maskDataUrl ls =
     map (\<lambda>l. if layer_id l \<noteq> layerId then l
              else (case maskDataUrl of
                      None \<Rightarrow> l\<lparr>layer_mask := None\<rparr>
                    | Some d \<Rightarrow> l\<lparr>layer_mask := Some \<lparr>dataUrl = d, mask_visible = True\<rparr>\<rparr>)) ls"

text \<open>
  \<open>toggleLayerMask\<close>: the layer with the given id, when it has a mask, gets the mask's
  \<open>visible\<close> flag negated; every other layer is returned as it is.
\<close>

definition toggleLayerMask :: "string \<Rightarrow> layer list \<Rightarrow> layer list" where
  "toggleLayerMask layerId ls =
     map (\<lambda>l. case layer_mask l of
                 None \<Rightarrow> l
               | Some m \<Rightarrow>
                   if layer_id l \<noteq> layerId then l
                   else l\<lparr>layer_mask := Some (m\<lparr>mask_visible := \<not> mask_visible m\<rparr>)\<rparr>) ls"

subsection \<open>Commands\<close>

text \<open>The fields of a \<open>CropAction\<close>, as its constructor and \<open>attachImages\<close> set them.\<close>

record crop_action =
  oldViewportTransform :: "real list"
  newViewportTransform :: "real list"
  oldWidth :: real
  oldHeight :: real
  newWidth :: real
  newHeight :: real
  oldDocOrigin :: document_origin
  newDocOrigin :: document_origin
  objectPositions :: "object_position list"
  cropOffsetX :: real
  cropOffsetY :: real
  crop_previousImage :: "obj option"
  crop_newImage :: "obj option"
  crop_activeLayerId :: "string option"
  crop_selection :: obj

text \<open>
  One constructor per class that implements \<open>Action\<close>. The callbacks a command is
  constructed with are not data of the command: the semantics below wires them the way
  Canvas.tsx does.
\<close>

datatype action =
    UploadImage "obj option" "obj option" obj
  | CreateSelection obj "obj option"
  | ModifySelection obj geometry geometry
  | ClearSelection obj
  | SetMask string "string option" "string option"
  | ToggleMask string
  | Crop crop_action

subsection \<open>The state of the Canvas component\<close>

record editor =
  objects :: "obj list"
  props :: "obj \<Rightarrow> geometry"
  canvas_width :: real
  canvas_height :: real
  viewportTransform :: "real list option"
  selectionRectRef :: "obj option"
  layerMapRef :: "string \<rightharpoonup> obj"
  documentOriginRef :: document_origin
  canvasSize :: "(real \<times> real) option"
  layers :: "layer list"
  activeLayerIdRef :: "string option"
  activeToolRef :: tool
  isDrawing :: bool
  startX :: real
  startY :: real
  tempSelection :: "obj option"
  selectionBeforeModifyRef :: "geometry option"
  nextObject :: obj
  selectionNotice :: "selection_data option"
  imageNotice :: "obj option"
  undoStack :: "action list"
  redoStack :: "action list"
  maxHistorySize :: nat
  historyNotices :: "(bool \<times> bool) list"

section \<open>The drawable graph\<close>

text \<open>
  The fabric canvas keeps its objects in an array, bottom of the stack first.
  \<open>canvas.add\<close> pushes the object at the end, \<open>canvas.remove\<close> splices out the first
  occurrence of the object and does nothing when the object is not there, and
  \<open>canvas.clear\<close> empties the array. Rendering
  (\<open>renderAll\<close>, \<open>requestRenderAll\<close>, \<open>calcOffset\<close>, \<open>setCoords\<close>), the background
  colour, cursors and the \<open>selectable\<close> and \<open>evented\<close> flags change no field of the
  state below and are left out.
\<close>

definition canvas_add :: "obj \<Rightarrow> editor \<Rightarrow> editor" where
  "canvas_add ob s = s\<lparr>objects := objects s @ [ob]\<rparr>"

definition canvas_remove :: "obj \<Rightarrow> editor \<Rightarrow> editor" where
  "canvas_remove ob s = s\<lparr>objects := remove1 ob (objects s)\<rparr>"

definition canvas_clear :: "editor \<Rightarrow> editor" where
  "canvas_clear s = s\<lparr>objects := []\<rparr>"

text \<open>JavaScript's \<open>a || d\<close> on numbers: \<open>d\<close> when \<open>a\<close> is \<open>0\<close>.\<close>

definition or_default :: "real \<Rightarrow> real \<Rightarrow> real" where
  "or_default a d = (if a = 0 then d else a)"

text \<open>A string or \<open>null\<close> in a condition: \<open>null\<close> and the empty string are falsy.\<close>

fun truthy :: "string option \<Rightarrow> bool" where
  "truthy None = False"
| "truthy (Some t) = (t \<noteq> [])"

section \<open>Callbacks of Canvas.tsx\<close>

text \<open>
  \<open>getSelectionData\<close> reads the rectangle \<open>selectionRectRef\<close> points to;
  \<open>handleSelectionChangeInternal\<close> stores the rectangle in \<open>selectionRectRef\<close> and passes
  the data to the parent's \<open>onSelectionChange\<close> (recorded in \<open>selectionNotice\<close>).
\<close>

definition getSelectionData :: "editor \<Rightarrow> selection_data option" where
  "getSelectionData s =
     (case selectionRectRef s of
        None \<Rightarrow> None
      | Some r \<Rightarrow>
          Some \<lparr>sel_x = left (props s r), sel_y = top' (props s r),
                sel_width = width (props s r) * scaleX (props s r),
                sel_height = height (props s r) * scaleY (props s r)\<rparr>)"

definition handleSelectionChangeInternal ::
  "obj option \<Rightarrow> selection_data option \<Rightarrow> editor \<Rightarrow> editor" where
  "handleSelectionChangeInternal sel d s = s\<lparr>selectionRectRef := sel, selectionNotice := d\<rparr>"

text \<open>
  \<open>selection.set(state)\<close> with the six properties of a saved state. For \<open>scaleX\<close> and
  \<open>scaleY\<close> fabric's \<open>set\<close> does not store every value as given: \<open>_constrainScale\<close>, with
  the default \<open>minScaleLimit\<close> of \<open>0\<close>, turns a scale of \<open>0\<close> into \<open>0.0001\<close>, and a negative
  scale is stored as its absolute value (the object's \<open>flipX\<close> or \<open>flipY\<close> is negated
  instead; the flips are no part of a saved state and are left out).
\<close>

definition constrainScale :: "real \<Rightarrow> real" where
  "constrainScale v = (if v = 0 then 0.0001 else v)"

definition stored :: "geometry \<Rightarrow> geometry" where
  "stored g = g\<lparr>scaleX := \<bar>constrainScale (scaleX g)\<bar>, scaleY := \<bar>constrainScale (scaleY g)\<bar>\<rparr>"

definition set_geometry :: "obj \<Rightarrow> geometry \<Rightarrow> editor \<Rightarrow> editor" where
  "set_geometry ob g s = s\<lparr>props := (props s)(ob := stored g)\<rparr>"

section \<open>The commands (Actions.ts, MaskActions.ts, CropAction.ts)\<close>

text \<open>
  \<open>UploadImageAction\<close> is constructed nowhere in the repository, so its two callbacks
  have no wiring to follow: \<open>onImageChange\<close> is recorded in \<open>imageNotice\<close>, and
  \<open>onSelectionChange\<close>, which takes the rectangle alone, sets \<open>selectionRectRef\<close> and
  passes no data on.
\<close>

definition UploadImageAction_execute :: "obj option \<Rightarrow> obj option \<Rightarrow> obj \<Rightarrow> editor \<Rightarrow> editor" where
  "UploadImageAction_execute previousImage previousSelection newImage s =
     (let s1 = canvas_clear s;
          s2 = canvas_add newImage s1;
          s3 = s2\<lparr>imageNotice := Some newImage\<rparr>
      in handleSelectionChangeInternal None None s3)"

definition UploadImageAction_undo :: "obj option \<Rightarrow> obj option \<Rightarrow> obj \<Rightarrow> editor \<Rightarrow> editor" where
  "UploadImageAction_undo previousImage previousSelection newImage s =
     (let s1 = canvas_clear s in
      case previousImage of
        Some img \<Rightarrow>
          (let s2 = canvas_add img s1;
               s3 = (case previousSelection of None \<Rightarrow> s2 | Some r \<Rightarrow> canvas_add r s2);
               s4 = s3\<lparr>imageNotice := Some img\<rparr>
           in handleSelectionChangeInternal previousSelection None s4)
      | None \<Rightarrow>
          handleSelectionChangeInternal None None (s1\<lparr>imageNotice := None\<rparr>))"

text \<open>
  In \<open>onSelectionChange(this.selection, this.getSelectionData())\<close> the data is computed
  before the callback runs, so from the rectangle \<open>selectionRectRef\<close> points to at that
  moment.
\<close>

definition CreateSelectionAction_execute :: "obj \<Rightarrow> obj option \<Rightarrow> editor \<Rightarrow> editor" where
  "CreateSelectionAction_execute selection previousSelection s =
     (let s1 = (case previousSelection of None \<Rightarrow> s | Some p \<Rightarrow> canvas_remove p s);
          s2 = canvas_add selection s1
      in handleSelectionChangeInternal (Some selection) (getSelectionData s2) s2)"

definition CreateSelectionAction_undo :: "obj \<Rightarrow> obj option \<Rightarrow> editor \<Rightarrow> editor" where
  "CreateSelectionAction_undo selection previousSelection s =
     (let s1 = canvas_remove selection s in
      case previousSelection of
        Some p \<Rightarrow>
          (let s2 = canvas_add p s1
           in handleSelectionChangeInternal (Some p) (getSelectionData s2) s2)
      | None \<Rightarrow> handleSelectionChangeInternal None None s1)"

definition ModifySelectionAction_execute :: "obj \<Rightarrow> geometry \<Rightarrow> geometry \<Rightarrow> editor \<Rightarrow> editor" where
  "ModifySelectionAction_execute selection previousState newState s =
     (let s1 = set_geometry selection newState s
      in handleSelectionChangeInternal (Some selection) (getSelectionData s1) s1)"

definition ModifySelectionAction_undo :: "obj \<Rightarrow> geometry \<Rightarrow> geometry \<Rightarrow> editor \<Rightarrow> editor" where
  "ModifySelectionAction_undo selection previousState newState s =
     (let s1 = set_geometry selection previousState s
      in handleSelectionChangeInternal (Some selection) (getSelectionData s1) s1)"

definition ClearSelectionAction_execute :: "obj \<Rightarrow> editor \<Rightarrow> editor" where
  "ClearSelectionAction_execute selection s =
     handleSelectionChangeInternal None None (canvas_remove selection s)"

definition ClearSelectionAction_undo :: "obj \<Rightarrow> editor \<Rightarrow> editor" where
  "ClearSelectionAction_undo selection s =
     handleSelectionChangeInternal (Some selection) None (canvas_add selection s)"

text \<open>
  The constructor of \<open>SetMaskAction\<close> stores \<open>oldMaskData || null\<close>: an absent and an
  empty old mask both become \<open>null\<close>.
\<close>

definition SetMaskAction :: "string \<Rightarrow> string option \<Rightarrow> string option \<Rightarrow> action" where
  "SetMaskAction layerId oldMaskData newMaskData =
     SetMask layerId (if truthy oldMaskData then oldMaskData else None) newMaskData"

definition SetMaskAction_execute :: "string \<Rightarrow> string option \<Rightarrow> string option \<Rightarrow> editor \<Rightarrow> editor" where
  "SetMaskAction_execute layerId oldMaskData newMaskData s =
     s\<lparr>layers := setLayerMask layerId newMaskData (layers s)\<rparr>"

definition SetMaskAction_undo :: "string \<Rightarrow> string option \<Rightarrow> string option \<Rightarrow> editor \<Rightarrow> editor" where
  "SetMaskAction_undo layerId oldMaskData newMaskData s =
     s\<lparr>layers := setLayerMask layerId oldMaskData (layers s)\<rparr>"

definition ToggleMaskAction_execute :: "string \<Rightarrow> editor \<Rightarrow> editor" where
  "ToggleMaskAction_execute layerId s = s\<lparr>layers := toggleLayerMask layerId (layers s)\<rparr>"

definition ToggleMaskAction_undo :: "string \<Rightarrow> editor \<Rightarrow> editor" where
  "ToggleMaskAction_undo layerId s = s\<lparr>layers := toggleLayerMask layerId (layers s)\<rparr>"

text \<open>
  \<open>updateLayerMap\<close> is \<open>layerMapRef.current.set(layerId, img)\<close>. \<open>CropAction\<close> also holds
  \<open>setCanvasSize\<close> and \<open>setDocumentOrigin\<close>, the old and new dimensions, origins and
  viewport transforms and the object positions; neither \<open>execute\<close> nor \<open>undo\<close> uses them.
\<close>

definition updateLayerMap :: "string \<Rightarrow> obj \<Rightarrow> editor \<Rightarrow> editor" where
  "updateLayerMap layerId img s = s\<lparr>layerMapRef := (layerMapRef s)(layerId \<mapsto> img)\<rparr>"

definition CropAction_execute :: "crop_action \<Rightarrow> editor \<Rightarrow> editor" where
  "CropAction_execute a s =
     (let s1 = canvas_remove (crop_selection a) s;
          s2 = handleSelectionChangeInternal None None s1
      in case (crop_previousImage a, crop_newImage a) of
           (Some prev, Some new) \<Rightarrow>
             (let s3 = canvas_remove prev s2;
                  s4 = canvas_add new s3
              in if truthy (crop_activeLayerId a)
                 then updateLayerMap (the (crop_activeLayerId a)) new s4
                 else s4)
         | _ \<Rightarrow> s2)"

definition CropAction_undo :: "crop_action \<Rightarrow> editor \<Rightarrow> editor" where
  "CropAction_undo a s =
     (let s1 = (case (crop_previousImage a, crop_newImage a) of
                  (Some prev, Some new) \<Rightarrow>
                    (let s2 = canvas_remove new s;
                         s3 = canvas_add prev s2
                     in if truthy (crop_activeLayerId a)
                        then updateLayerMap (the (crop_activeLayerId a)) prev s3
                        else s3)
                | _ \<Rightarrow> s);
          s4 = canvas_add (crop_selection a) s1;
          g = props s4 (crop_selection a);
          selData = \<lparr>sel_x = or_default (left g) 0, sel_y = or_default (top' g) 0,
                     sel_width = or_default (width g) 0 * or_default (scaleX g) 1,
                     sel_height = or_default (height g) 0 * or_default (scaleY g) 1\<rparr>
      in handleSelectionChangeInternal (Some (crop_selection a)) (Some selData) s4)"

text \<open>Dynamic dispatch of \<open>action.execute()\<close> and \<open>action.undo()\<close>.\<close>

fun action_execute :: "action \<Rightarrow> editor \<Rightarrow> editor" where
  "action_execute (UploadImage p ps n) s = UploadImageAction_execute p ps n s"
| "action_execute (CreateSelection r p) s = CreateSelectionAction_execute r p s"
| "action_execute (ModifySelection r g g') s = ModifySelectionAction_execute r g g' s"
| "action_execute (ClearSelection r) s = ClearSelectionAction_execute r s"
| "action_execute (SetMask i old new) s = SetMaskAction_execute i old new s"
| "action_execute (ToggleMask i) s = ToggleMaskAction_execute i s"
| "action_execute (Crop a) s = CropAction_execute a s"

fun action_undo :: "action \<Rightarrow> editor \<Rightarrow> editor" where
  "action_undo (UploadImage p ps n) s = UploadImageAction_undo p ps n s"
| "action_undo (CreateSelection r p) s = CreateSelectionAction_undo r p s"
| "action_undo (ModifySelection r g g') s = ModifySelectionAction_undo r g g' s"
| "action_undo (ClearSelection r) s = ClearSelectionAction_undo r s"
| "action_undo (SetMask i old new) s = SetMaskAction_undo i old new s"
| "action_undo (ToggleMask i) s = ToggleMaskAction_undo i s"
| "action_undo (Crop a) s = CropAction_undo a s"

section \<open>The history manager (HistoryManager.ts)\<close>

text \<open>
  Both stacks are arrays with the most recent command last: \<open>push\<close> appends, \<open>pop\<close>
  takes the last element, \<open>shift\<close> drops the first. The \<open>onHistoryChange\<close> that Canvas.tsx
  passes reports \<open>canUndo()\<close> and \<open>canRedo()\<close> to the parent; each report is appended to
  \<open>historyNotices\<close>.
\<close>

definition canUndo :: "editor \<Rightarrow> bool" where
  "canUndo s = (length (undoStack s) > 0)"

definition canRedo :: "editor \<Rightarrow> bool" where
  "canRedo s = (length (redoStack s) > 0)"

definition notifyChange :: "editor \<Rightarrow> editor" where
  "notifyChange s = s\<lparr>historyNotices := historyNotices s @ [(canUndo s, canRedo s)]\<rparr>"

definition execute :: "action \<Rightarrow> editor \<Rightarrow> editor" where
  "execute a s =
     (let s1 = action_execute a s;
          s2 = s1\<lparr>undoStack := undoStack s1 @ [a]\<rparr>;
          s3 = (if length (undoStack s2) > maxHistorySize s2
                then s2\<lparr>undoStack := tl (undoStack s2)\<rparr> else s2);
          s4 = s3\<lparr>redoStack := []\<rparr>
      in notifyChange s4)"

definition undo :: "editor \<Rightarrow> editor" where
  "undo s =
     (if undoStack s = [] then s
      else (let a = last (undoStack s);
                s1 = s\<lparr>undoStack := butlast (undoStack s)\<rparr>;
                s2 = action_undo a s1;
                s3 = s2\<lparr>redoStack := redoStack s2 @ [a]\<rparr>
            in notifyChange s3))"

definition redo :: "editor \<Rightarrow> editor" where
  "redo s =
     (if redoStack s = [] then s
      else (let a = last (redoStack s);
                s1 = s\<lparr>redoStack := butlast (redoStack s)\<rparr>;
                s2 = action_execute a s1;
                s3 = s2\<lparr>undoStack := undoStack s2 @ [a]\<rparr>
            in notifyChange s3))"

definition clear :: "editor \<Rightarrow> editor" where
  "clear s = notifyChange (s\<lparr>undoStack := [], redoStack := []\<rparr>)"

definition getState :: "editor \<Rightarrow> nat \<times> nat" where
  "getState s = (length (undoStack s), length (redoStack s))"

section \<open>The Canvas component (Canvas.tsx)\<close>

text \<open>
  The state right after the component has mounted on a container of the given size: an
  empty canvas, the history manager constructed with \<open>maxHistorySize = 50\<close>, the document
  origin at \<open>(0, 0)\<close>. From then on \<open>fabricRef\<close> and \<open>historyRef\<close> are never \<open>null\<close>, so
  the tests of the handlers on them are left out.
\<close>

definition default_geometry :: geometry where
  "default_geometry = \<lparr>left = 0, top' = 0, scaleX = 1, scaleY = 1, width = 0, height = 0\<rparr>"

definition initial_editor :: "real \<Rightarrow> real \<Rightarrow> editor" where
  "initial_editor w h =
     \<lparr>objects = [], props = (\<lambda>_. default_geometry), canvas_width = w, canvas_height = h,
      viewportTransform = Some [1, 0, 0, 1, 0, 0], selectionRectRef = None,
      layerMapRef = Map.empty, documentOriginRef = \<lparr>origin_x = 0, origin_y = 0\<rparr>,
      canvasSize = None, layers = [], activeLayerIdRef = None, activeToolRef = Move,
      isDrawing = False, startX = 0, startY = 0, tempSelection = None,
      selectionBeforeModifyRef = None, nextObject = 0, selectionNotice = None,
      imageNotice = None, undoStack = [], redoStack = [], maxHistorySize = 50,
      historyNotices = []\<rparr>"

text \<open>
  \<open>addLayer\<close> of the store puts the new layer first and makes it the active one; the id
  comes from \<open>uuidv4()\<close> and is a parameter here. \<open>addImageLayer\<close>, once the image has
  loaded, places it at \<open>(0, 0)\<close>, adds a layer for it, binds the layer to it and adds it
  to the canvas. A new fabric object takes the next free handle.
\<close>

definition addLayer :: "string \<Rightarrow> string \<Rightarrow> editor \<Rightarrow> editor" where
  "addLayer newId layerName s =
     s\<lparr>layers := \<lparr>layer_id = newId, name = layerName, visible = True, locked = False,
                    opacity = 1, blendMode = ''normal'', canvasObjectId = None,
                    thumbnail = None, layer_mask = None, filters = None\<rparr> # layers s,
       activeLayerIdRef := Some newId\<rparr>"

definition addImageLayer :: "string \<Rightarrow> string \<Rightarrow> real \<Rightarrow> real \<Rightarrow> editor \<Rightarrow> editor" where
  "addImageLayer newId layerName w h s =
     (let img = nextObject s;
          s1 = s\<lparr>nextObject := Suc img,
                 props := (props s)(img := default_geometry\<lparr>width := w, height := h\<rparr>)\<rparr>;
          s2 = addLayer newId layerName s1;
          s3 = updateLayerMap newId img s2;
          s4 = canvas_add img s3
      in s4\<lparr>activeLayerIdRef := Some newId\<rparr>)"

definition getActiveImageObject :: "editor \<Rightarrow> obj option" where
  "getActiveImageObject s =
     (if \<not> truthy (activeLayerIdRef s) then None
      else layerMapRef s (the (activeLayerIdRef s)))"

subsection \<open>Drawing a selection (setupSelectionInteraction)\<close>

text \<open>
  The three handlers share \<open>isDrawing\<close>, \<open>startX\<close>, \<open>startY\<close> and the canvas's
  \<open>_tempSelection\<close>. The hit test \<open>canvas.findTarget\<close> and the pointer position
  \<open>canvas.getPointer\<close> are the event's data.
\<close>

definition mouse_down :: "obj option \<Rightarrow> real \<times> real \<Rightarrow> editor \<Rightarrow> editor" where
  "mouse_down target pointer s =
     (if activeToolRef s \<noteq> Select \<and> activeToolRef s \<noteq> CropTool then s
      else if getActiveImageObject s = None then s
      else if target \<noteq> None \<and> target = selectionRectRef s then
        (let g = props s (the target)
         in s\<lparr>selectionBeforeModifyRef :=
                 Some \<lparr>left = or_default (left g) 0, top' = or_default (top' g) 0,
                       scaleX = or_default (scaleX g) 1, scaleY = or_default (scaleY g) 1,
                       width = or_default (width g) 0, height = or_default (height g) 0\<rparr>\<rparr>)
      else
        (let s1 = s\<lparr>isDrawing := True, startX := fst pointer, startY := snd pointer\<rparr>;
             s2 = (case selectionRectRef s1 of
                     None \<Rightarrow> s1
                   | Some r \<Rightarrow> (canvas_remove r s1)\<lparr>selectionRectRef := None,
                                                     selectionNotice := None\<rparr>);
             rect = nextObject s2;
             s3 = s2\<lparr>nextObject := Suc rect,
                    props := (props s2)(rect := \<lparr>left = startX s2, top' = startY s2,
                                                 scaleX = 1, scaleY = 1,
                                                 width = 0, height = 0\<rparr>)\<rparr>;
             s4 = s3\<lparr>tempSelection := Some rect\<rparr>
         in canvas_add rect s4))"

definition mouse_move :: "real \<times> real \<Rightarrow> editor \<Rightarrow> editor" where
  "mouse_move pointer s =
     (case tempSelection s of
        None \<Rightarrow> s
      | Some rect \<Rightarrow>
          if \<not> isDrawing s then s
          else
            (let w = fst pointer - startX s;
                 h = snd pointer - startY s;
                 g0 = props s rect;
                 g1 = (if w < 0 then g0\<lparr>left := fst pointer\<rparr> else g0);
                 w1 = (if w < 0 then \<bar>w\<bar> else w);
                 g2 = (if h < 0 then g1\<lparr>top' := snd pointer\<rparr> else g1);
                 h1 = (if h < 0 then \<bar>h\<bar> else h)
             in s\<lparr>props := (props s)(rect := g2\<lparr>width := w1, height := h1\<rparr>)\<rparr>))"

definition mouse_up :: "editor \<Rightarrow> editor" where
  "mouse_up s =
     (case tempSelection s of
        None \<Rightarrow> s
      | Some rect \<Rightarrow>
          if \<not> isDrawing s then s
          else
            (let s1 = s\<lparr>isDrawing := False\<rparr>;
                 s2 = (if or_default (width (props s1 rect)) 0 < 5
                          \<or> or_default (height (props s1 rect)) 0 < 5
                       then canvas_remove rect s1
                       else (let s3 = s1\<lparr>selectionRectRef := Some rect\<rparr>;
                                 s4 = canvas_remove rect s3
                             in execute (CreateSelection rect None) s4))
             in s2\<lparr>tempSelection := None\<rparr>))"

text \<open>
  Moving or resizing the selection rectangle. \<open>mouse:down\<close> on the rectangle has saved
  its geometry in \<open>selectionBeforeModifyRef\<close>; fabric then moves or scales the rectangle
  itself as the pointer drags it (\<open>set_geometry\<close> above), and fires \<open>object:modified\<close>
  when the pointer is released. The handler reads the rectangle's geometry, which is the
  new one already, and executes a \<open>ModifySelectionAction\<close> from the saved to the new
  geometry.
\<close>

definition object_modified :: "obj \<Rightarrow> editor \<Rightarrow> editor" where
  "object_modified target s =
     (case selectionBeforeModifyRef s of
        None \<Rightarrow> s
      | Some before \<Rightarrow>
          if selectionRectRef s \<noteq> Some target then s
          else
            (let g = props s target;
                 newState = \<lparr>left = or_default (left g) 0, top' = or_default (top' g) 0,
                             scaleX = or_default (scaleX g) 1, scaleY = or_default (scaleY g) 1,
                             width = or_default (width g) 0, height = or_default (height g) 0\<rparr>;
                 s1 = execute (ModifySelection target before newState) s
             in s1\<lparr>selectionBeforeModifyRef := None\<rparr>))"

subsection \<open>Crop\<close>

text \<open>
  \<open>crop\<close> returns nothing; what it reports goes to the console. The result here pairs
  the new state with how the call ended: a silent return, the \<open>console.error\<close> message, or
  completion. The pixels of the cropped image come from \<open>canvas.toDataURL\<close> (the other
  objects are hidden for the export and shown again) and are no part of the state; the new
  image is a new fabric object placed at \<open>(x, y)\<close>. The \<open>await\<close> on the image load is
  taken as one step.
\<close>

datatype crop_outcome = Returned_silently | Reported string | Completed

definition crop :: "real \<Rightarrow> real \<Rightarrow> real \<Rightarrow> real \<Rightarrow> editor \<Rightarrow> crop_outcome \<times> editor" where
  "crop w h x y s =
     (case selectionRectRef s of
        None \<Rightarrow> (Returned_silently, s)
      | Some selection \<Rightarrow>
          if w \<le> 0 \<or> h \<le> 0 then (Reported ''Invalid crop dimensions'', s)
          else
            (let activeImg = getActiveImageObject s;
                 oldVpt = (case viewportTransform s of
                             None \<Rightarrow> [1, 0, 0, 1, 0, 0] | Some v \<Rightarrow> v);
                 oldOrigin = documentOriginRef s;
                 newOrigin = \<lparr>origin_x = origin_x oldOrigin + x,
                              origin_y = origin_y oldOrigin + y\<rparr>;
                 positions = map (\<lambda>ob. \<lparr>pos_object = ob,
                                         pos_left = or_default (left (props s ob)) 0,
                                         pos_top = or_default (top' (props s ob)) 0\<rparr>)
                               (filter (\<lambda>ob. ob \<noteq> selection) (objects s));
                 newImg = (case activeImg of None \<Rightarrow> None | Some _ \<Rightarrow> Some (nextObject s));
                 s1 = (case newImg of
                         None \<Rightarrow> s
                       | Some n \<Rightarrow>
                           s\<lparr>nextObject := Suc n,
                             props := (props s)(n := \<lparr>left = x, top' = y, scaleX = 1,
                                                      scaleY = 1, width = w, height = h\<rparr>)\<rparr>);
                 s2 = s1\<lparr>selectionRectRef := None\<rparr>;
                 a = \<lparr>oldViewportTransform = oldVpt, newViewportTransform = oldVpt,
                      oldWidth = canvas_width s, oldHeight = canvas_height s,
                      newWidth = w, newHeight = h,
                      oldDocOrigin = oldOrigin, newDocOrigin = newOrigin,
                      objectPositions = positions, cropOffsetX = x, cropOffsetY = y,
                      crop_previousImage = activeImg, crop_newImage = newImg,
                      crop_activeLayerId = activeLayerIdRef s,
                      crop_selection = selection\<rparr>
             in (Completed, execute (Crop a) s2)))"

section \<open>The mask generator (generateMaskData, applyMaskAction and invertMask of Canvas.tsx)\<close>

text \<open>
  A layer's mask is held as a PNG data URL. The browser decodes a data URL to an image
  (\<open>loadImage\<close>) and encodes the bitmap of a canvas element as a data URL (\<open>toDataURL\<close>);
  the two are parameters of the functions below. An image is its pixel dimensions and its
  pixels, row by row from the top; a pixel is its red, green and blue channel, eight bits
  each. \<open>generateMaskData\<close> fills its canvas with opaque black before it draws, so every
  buffer it returns is opaque: the alpha channel is left out.
\<close>

record pixel =
  red :: "8 word"
  green :: "8 word"
  blue :: "8 word"

record image =
  image_width :: nat
  image_height :: nat
  image_data :: "pixel list"

definition black :: pixel where
  "black = \<lparr>red = 0, green = 0, blue = 0\<rparr>"

definition white :: pixel where
  "white = \<lparr>red = 255, green = 255, blue = 255\<rparr>"

text \<open>
  The 2D context of a canvas element: the bitmap, the fill style and the compositing
  operation. With \<open>source-over\<close> an opaque source pixel replaces the pixel below it; with
  \<open>difference\<close> on an opaque backdrop each channel becomes the absolute difference of the
  two.
\<close>

datatype composite = Source_over | Difference

record context2d =
  bitmap :: image
  fillStyle :: pixel
  globalCompositeOperation :: composite

definition channel_difference :: "8 word \<Rightarrow> 8 word \<Rightarrow> 8 word" where
  "channel_difference a b = (if a \<le> b then b - a else a - b)"

definition composite_pixel :: "composite \<Rightarrow> pixel \<Rightarrow> pixel \<Rightarrow> pixel" where
  "composite_pixel operation source backdrop =
     (case operation of
        Source_over \<Rightarrow> source
      | Difference \<Rightarrow>
          \<lparr>red = channel_difference (red backdrop) (red source),
           green = channel_difference (green backdrop) (green source),
           blue = channel_difference (blue backdrop) (blue source)\<rparr>)"

text \<open>
  \<open>document.createElement('canvas')\<close> with its \<open>width\<close> and \<open>height\<close> set, and
  \<open>getContext('2d')\<close>. The dimensions of the fabric canvas are the container's
  \<open>clientWidth\<close> and \<open>clientHeight\<close>, whole numbers of pixels; a canvas element keeps the
  integer part of what is assigned to its \<open>width\<close> and \<open>height\<close>.
\<close>

definition pixel_size :: "real \<Rightarrow> nat" where
  "pixel_size x = nat \<lfloor>x\<rfloor>"

definition createCanvas :: "nat \<Rightarrow> nat \<Rightarrow> context2d" where
  "createCanvas w h =
     \<lparr>bitmap = \<lparr>image_width = w, image_height = h, image_data = replicate (w * h) black\<rparr>,
      fillStyle = black, globalCompositeOperation = Source_over\<rparr>"

text \<open>\<open>ctx.fillRect(0, 0, width, height)\<close>: the fill style is composited on every pixel.\<close>

definition fillRect :: "context2d \<Rightarrow> context2d" where
  "fillRect c =
     c\<lparr>bitmap := (bitmap c)\<lparr>image_data :=
          map (composite_pixel (globalCompositeOperation c) (fillStyle c))
            (image_data (bitmap c))\<rparr>\<rparr>"

text \<open>
  \<open>ctx.drawImage(img, 0, 0, width, height)\<close> scales the image to the whole canvas. For an
  image of the canvas's size this copies the image pixel by pixel. For another size the
  browser resamples, with a filter of its choosing; the pixel that lies at the same
  relative position is taken here. An image without pixels draws nothing.
\<close>

definition pixel_at :: "image \<Rightarrow> nat \<Rightarrow> nat \<Rightarrow> pixel" where
  "pixel_at img x y =
     (if x < image_width img \<and> y * image_width img + x < length (image_data img)
      then image_data img ! (y * image_width img + x) else black)"

definition drawImage :: "image \<Rightarrow> context2d \<Rightarrow> context2d" where
  "drawImage img c =
     (let w = image_width (bitmap c); h = image_height (bitmap c)
      in if image_width img = 0 \<or> image_height img = 0 then c
         else c\<lparr>bitmap := (bitmap c)\<lparr>image_data :=
                map (\<lambda>(k, backdrop).
                       composite_pixel (globalCompositeOperation c)
                         (pixel_at img ((k mod w) * image_width img div w)
                                       ((k div w) * image_height img div h))
                         backdrop)
                  (enumerate 0 (image_data (bitmap c)))\<rparr>\<rparr>)"

text \<open>
  \<open>generateMaskData('invert')\<close>. It returns \<open>null\<close> when there is no active layer, when
  the active layer (the first layer with the active id) has no mask or a mask without
  data, and when the mask's data URL does not load (the rejected promise is caught and
  logged). Otherwise the mask is drawn on a new canvas of the fabric canvas's size, filled
  with black before, and a white rectangle is composited over all of it with
  \<open>difference\<close>; the data URL of that canvas is returned.
\<close>

definition activeLayer :: "editor \<Rightarrow> layer option" where
  "activeLayer s = find (\<lambda>l. Some (layer_id l) = activeLayerIdRef s) (layers s)"

definition generateMaskData_invert ::
  "(string \<Rightarrow> image option) \<Rightarrow> (image \<Rightarrow> string) \<Rightarrow> editor \<Rightarrow> string option" where
  "generateMaskData_invert loadImage toDataURL s =
     (if \<not> truthy (activeLayerIdRef s) then None
      else
        (let w = pixel_size (canvas_width s);
             h = pixel_size (canvas_height s);
             ctx = createCanvas w h;
             ctx1 = fillRect (ctx\<lparr>fillStyle := black\<rparr>)
         in case activeLayer s of
              None \<Rightarrow> None
            | Some l \<Rightarrow>
                (case layer_mask l of
                   None \<Rightarrow> None
                 | Some m \<Rightarrow>
                     if dataUrl m = [] then None
                     else
                       (case loadImage (dataUrl m) of
                          None \<Rightarrow> None
                        | Some currentMaskImg \<Rightarrow>
                            (let ctx2 = drawImage currentMaskImg ctx1;
                                 ctx3 = ctx2\<lparr>globalCompositeOperation := Difference,
                                            fillStyle := white\<rparr>;
                                 ctx4 = fillRect ctx3
                             in Some (toDataURL (bitmap ctx4)))))))"

text \<open>
  \<open>applyMaskAction\<close> executes, through the history manager, a \<open>SetMaskAction\<close> from the
  active layer's present mask data to the new data. \<open>invertMask\<close> applies what
  \<open>generateMaskData('invert')\<close> returned, unless that is \<open>null\<close> or empty.
\<close>

definition applyMaskAction :: "string option \<Rightarrow> editor \<Rightarrow> editor" where
  "applyMaskAction newMaskData s =
     (if \<not> truthy (activeLayerIdRef s) then s
      else execute (SetMaskAction (the (activeLayerIdRef s))
                      (case activeLayer s of
                         None \<Rightarrow> None
                       | Some l \<Rightarrow> map_option dataUrl (layer_mask l))
                      newMaskData) s)"

definition invertMask ::
  "(string \<Rightarrow> image option) \<Rightarrow> (image \<Rightarrow> string) \<Rightarrow> editor \<Rightarrow> editor" where
  "invertMask loadImage toDataURL s =
     (let data = generateMaskData_invert loadImage toDataURL s
      in if truthy data then applyMaskAction data s else s)"

text \<open>The negative of an image: every channel \<open>v\<close> of every pixel becomes \<open>255 - v\<close>.\<close>

definition negative :: "image \<Rightarrow> image" where
  "negative img =
     img\<lparr>image_data := map (\<lambda>p. \<lparr>red = 255 - red p, green = 255 - green p,
                                    blue = 255 - blue p\<rparr>) (image_data img)\<rparr>"

section \<open>Sequences of calls to the history manager\<close>

text \<open>
  The four state-changing methods of \<open>HistoryManager\<close> as values, so that a property
  can speak of every sequence of calls.
\<close>

datatype history_call = Execute action | Undo | Redo | Clear

fun run_call :: "history_call \<Rightarrow> editor \<Rightarrow> editor" where
  "run_call (Execute a) s = execute a s"
| "run_call Undo s = undo s"
| "run_call Redo s = redo s"
| "run_call Clear s = clear s"

definition run_calls :: "history_call list \<Rightarrow> editor \<Rightarrow> editor" where
  "run_calls cs s = foldl (\<lambda>t c. run_call c t) s cs"

fun is_undo_or_redo :: "history_call \<Rightarrow> bool" where
  "is_undo_or_redo Undo = True"
| "is_undo_or_redo Redo = True"
| "is_undo_or_redo _ = False"

text \<open>The calls made after the last \<open>execute\<close> or \<open>clear\<close> of a sequence.\<close>

definition since_last_execute :: "history_call list \<Rightarrow> history_call list" where
  "since_last_execute cs = rev (takeWhile is_undo_or_redo (rev cs))"

section \<open>Gestures\<close>

text \<open>
  \<open>setActiveTool\<close> and \<open>setActiveLayer\<close> of the store; the component copies the tool
  into \<open>activeToolRef\<close> and the active layer's id into \<open>activeLayerIdRef\<close>.
  A drag is a \<open>mouse:down\<close>, the \<open>mouse:move\<close> events in their order, and a \<open>mouse:up\<close>.
\<close>

definition setActiveTool :: "tool \<Rightarrow> editor \<Rightarrow> editor" where
  "setActiveTool t s = s\<lparr>activeToolRef := t\<rparr>"

definition setActiveLayer :: "string option \<Rightarrow> editor \<Rightarrow> editor" where
  "setActiveLayer i s = s\<lparr>activeLayerIdRef := i\<rparr>"

definition mouse_moves :: "(real \<times> real) list \<Rightarrow> editor \<Rightarrow> editor" where
  "mouse_moves ps s = foldl (\<lambda>t p. mouse_move p t) s ps"

definition drag :: "obj option \<Rightarrow> real \<times> real \<Rightarrow> (real \<times> real) list \<Rightarrow> editor \<Rightarrow> editor" where
  "drag target p ps s = mouse_up (mouse_moves ps (mouse_down target p s))"

section \<open>Executing and undoing a sequence of commands\<close>

text \<open>
  \<open>execute_all\<close> calls the history manager's \<open>execute\<close> for each command in turn.
  \<open>graph_view\<close> is the part of the state a round trip is about: the canvas's object
  array, the properties of every drawable, the layer bindings and the document origin.
\<close>

definition execute_all :: "action list \<Rightarrow> editor \<Rightarrow> editor" where
  "execute_all cs s = foldl (\<lambda>t c. execute c t) s cs"

definition graph_view :: "editor \<Rightarrow> obj list \<times> (obj \<Rightarrow> geometry) \<times> (string \<rightharpoonup> obj) \<times> document_origin" where
  "graph_view s = (objects s, props s, layerMapRef s, documentOriginRef s)"

text \<open>A drawable is on top when it is the last element of the object array and occurs
  nowhere else in it.\<close>

definition on_top :: "obj \<Rightarrow> obj list \<Rightarrow> bool" where
  "on_top ob xs = (xs \<noteq> [] \<and> last xs = ob \<and> ob \<notin> set (butlast xs))"

text \<open>
  A command fits a state when the state is the one its constructor recorded: the
  drawable it adds on \<open>execute\<close> is not on the canvas, the drawable it removes on
  \<open>execute\<close> is on top (for a \<open>CropAction\<close> with images: the selection rectangle on top and
  the previous image right below it), an \<open>UploadImageAction\<close> finds on the canvas just the
  image and the selection it recorded, and the layer a \<open>CropAction\<close> rebinds is bound to
  the recorded previous image. A sequence fits when each command fits the state the
  commands before it have produced.
\<close>

fun fits :: "action \<Rightarrow> editor \<Rightarrow> bool" where
  "fits (UploadImage p ps n) s =
     (objects s = (case p of None \<Rightarrow> []
                   | Some img \<Rightarrow> img # (case ps of None \<Rightarrow> [] | Some r \<Rightarrow> [r])))"
| "fits (CreateSelection r p) s =
     (r \<notin> set (objects s) \<and> (case p of None \<Rightarrow> True | Some q \<Rightarrow> on_top q (objects s)))"
| "fits (ModifySelection r g g') s = True"
| "fits (ClearSelection r) s = on_top r (objects s)"
| "fits (SetMask i old new) s = True"
| "fits (ToggleMask i) s = True"
| "fits (Crop a) s =
     (on_top (crop_selection a) (objects s)
      \<and> (case (crop_previousImage a, crop_newImage a) of
           (Some pv, Some nw) \<Rightarrow>
             on_top pv (butlast (objects s)) \<and> nw \<notin> set (objects s)
             \<and> (truthy (crop_activeLayerId a) \<longrightarrow>
                  layerMapRef s (the (crop_activeLayerId a)) = Some pv)
         | _ \<Rightarrow> True))"

fun fits_all :: "action list \<Rightarrow> editor \<Rightarrow> bool" where
  "fits_all [] s = True"
| "fits_all (c # cs) s = (fits c s \<and> fits_all cs (execute c s))"

text \<open>The \<open>undo\<close> methods of a list of commands, called in the list's order.\<close>

fun undo_actions :: "action list \<Rightarrow> editor \<Rightarrow> editor" where
  "undo_actions [] s = s"
| "undo_actions (c # cs) s = undo_actions cs (action_undo c s)"

text \<open>
  The properties that undoing a sequence of commands gives the drawables: a rectangle
  that \<open>ModifySelectionAction\<close>s of the sequence move gets the previous state of the first
  of them, as fabric stores it; the other drawables keep their properties.
\<close>

fun previous_geometry :: "action list \<Rightarrow> (obj \<Rightarrow> geometry) \<Rightarrow> obj \<Rightarrow> geometry" where
  "previous_geometry [] p = p"
| "previous_geometry (ModifySelection r g g' # cs) p = (previous_geometry cs p)(r := stored g)"
| "previous_geometry (c # cs) p = previous_geometry cs p"

section \<open>Properties\<close>

subsection \<open>What the commands leave alone\<close>

lemmas fabric_defs = canvas_add_def canvas_remove_def canvas_clear_def
  handleSelectionChangeInternal_def set_geometry_def updateLayerMap_def

lemmas command_defs = UploadImageAction_execute_def UploadImageAction_undo_def
  CreateSelectionAction_execute_def CreateSelectionAction_undo_def
  ModifySelectionAction_execute_def ModifySelectionAction_undo_def
  ClearSelectionAction_execute_def ClearSelectionAction_undo_def
  SetMaskAction_execute_def SetMaskAction_undo_def
  ToggleMaskAction_execute_def ToggleMaskAction_undo_def
  CropAction_execute_def CropAction_undo_def

lemma action_execute_history [simp]:
  "undoStack (action_execute a s) = undoStack s"
  "redoStack (action_execute a s) = redoStack s"
  "maxHistorySize (action_execute a s) = maxHistorySize s"
  "historyNotices (action_execute a s) = historyNotices s"
  by (cases a; simp add: command_defs fabric_defs Let_def split: option.splits prod.splits)+

lemma action_undo_history [simp]:
  "undoStack (action_undo a s) = undoStack s"
  "redoStack (action_undo a s) = redoStack s"
  "maxHistorySize (action_undo a s) = maxHistorySize s"
  "historyNotices (action_undo a s) = historyNotices s"
  by (cases a; simp add: command_defs fabric_defs Let_def split: option.splits prod.splits)+

subsection \<open>The stacks after each call\<close>

lemma execute_stacks:
  "undoStack (execute a s) =
     (if length (undoStack s) + 1 > maxHistorySize s then tl (undoStack s @ [a])
      else undoStack s @ [a])"
  "redoStack (execute a s) = []"
  "maxHistorySize (execute a s) = maxHistorySize s"
  by (simp_all add: execute_def notifyChange_def Let_def)

lemma undo_stacks:
  "undoStack (undo s) = butlast (undoStack s)"
  "redoStack (undo s) =
     (if undoStack s = [] then redoStack s else redoStack s @ [last (undoStack s)])"
  "maxHistorySize (undo s) = maxHistorySize s"
  by (simp_all add: undo_def notifyChange_def Let_def)

lemma redo_stacks:
  "undoStack (redo s) =
     (if redoStack s = [] then undoStack s else undoStack s @ [last (redoStack s)])"
  "redoStack (redo s) = butlast (redoStack s)"
  "maxHistorySize (redo s) = maxHistorySize s"
  by (simp_all add: redo_def notifyChange_def Let_def)

lemma clear_stacks:
  "undoStack (clear s) = []"
  "redoStack (clear s) = []"
  "maxHistorySize (clear s) = maxHistorySize s"
  by (simp_all add: clear_def notifyChange_def)

lemma redo_after_execute: "redo (execute a s) = execute a s"
  by (simp add: redo_def execute_stacks)

lemma run_calls_Nil: "run_calls [] s = s"
  by (simp add: run_calls_def)

lemma run_calls_snoc: "run_calls (cs @ [c]) s = run_call c (run_calls cs s)"
  by (simp add: run_calls_def)

lemma run_calls_Cons: "run_calls (c # cs) s = run_calls cs (run_call c s)"
  by (simp add: run_calls_def)

lemma since_snoc:
  "since_last_execute (cs @ [c]) =
     (if is_undo_or_redo c then since_last_execute cs @ [c] else [])"
  by (simp add: since_last_execute_def)

lemma run_call_max: "maxHistorySize (run_call c s) = maxHistorySize s"
  by (cases c) (simp_all add: execute_stacks undo_stacks redo_stacks clear_stacks)

lemma run_calls_max: "maxHistorySize (run_calls cs s) = maxHistorySize s"
  by (induction cs rule: rev_induct) (simp_all add: run_calls_snoc run_call_max run_calls_Nil)

lemma redo_only_after_undo:
  "redoStack s = [] \<Longrightarrow>
   length (redoStack (run_calls cs s)) \<le> count_list (since_last_execute cs) Undo"
proof (induction cs rule: rev_induct)
  case Nil
  then show ?case by (simp add: run_calls_Nil)
next
  case (snoc c cs)
  then show ?case
    by (cases c)
       (auto simp: run_calls_snoc since_snoc execute_stacks undo_stacks redo_stacks clear_stacks)
qed

lemma run_call_bound:
  assumes "length (undoStack s) + length (redoStack s) \<le> maxHistorySize s"
  shows "length (undoStack (run_call c s)) + length (redoStack (run_call c s))
           \<le> maxHistorySize s"
proof (cases c)
  case (Execute a)
  with assms show ?thesis by (auto simp: execute_stacks)
next
  case Undo
  with assms show ?thesis
    by (cases "undoStack s" rule: rev_cases) (simp_all add: undo_stacks)
next
  case Redo
  with assms show ?thesis
    by (cases "redoStack s" rule: rev_cases) (simp_all add: redo_stacks)
next
  case Clear
  then show ?thesis by (simp add: clear_stacks)
qed

lemma run_calls_bound:
  "length (undoStack s) + length (redoStack s) \<le> maxHistorySize s \<Longrightarrow>
   length (undoStack (run_calls cs s)) + length (redoStack (run_calls cs s))
     \<le> maxHistorySize s"
proof (induction cs rule: rev_induct)
  case Nil
  then show ?case by (simp add: run_calls_Nil)
next
  case (snoc c cs)
  then show ?case
    using run_call_bound [of "run_calls cs s" c]
    by (simp add: run_calls_snoc run_calls_max)
qed

lemma undo_redo_keeps_entries:
  "is_undo_or_redo c \<Longrightarrow>
   undoStack (run_call c s) @ rev (redoStack (run_call c s)) = undoStack s @ rev (redoStack s)"
proof (cases c)
  case Undo
  then show ?thesis
    by (cases "undoStack s" rule: rev_cases) (simp_all add: undo_stacks)
next
  case Redo
  then show ?thesis
    by (cases "redoStack s" rule: rev_cases) (simp_all add: redo_stacks)
qed simp_all

lemma undo_redo_calls_keep_entries:
  "\<forall>c \<in> set cs. is_undo_or_redo c \<Longrightarrow>
   undoStack (run_calls cs s) @ rev (redoStack (run_calls cs s))
     = undoStack s @ rev (redoStack s)"
  by (induction cs rule: rev_induct)
     (simp_all add: run_calls_snoc undo_redo_keeps_entries, simp add: run_calls_def)

subsection \<open>The mask toggle\<close>

lemma toggle_twice: "toggleLayerMask i (toggleLayerMask i ls) = ls"
  by (induction ls) (auto simp: toggleLayerMask_def split: option.splits)

lemma toggle_without_mask:
  "\<forall>l \<in> set ls. layer_id l = i \<longrightarrow> layer_mask l = None \<Longrightarrow> toggleLayerMask i ls = ls"
  by (induction ls) (auto simp: toggleLayerMask_def split: option.splits)

lemma toggle_nth:
  "k < length ls \<Longrightarrow>
   (layer_id (ls ! k) \<noteq> i \<longrightarrow> toggleLayerMask i ls ! k = ls ! k)
   \<and> (toggleLayerMask i ls ! k)\<lparr>layer_mask := None\<rparr> = (ls ! k)\<lparr>layer_mask := None\<rparr>
   \<and> map_option dataUrl (layer_mask (toggleLayerMask i ls ! k))
       = map_option dataUrl (layer_mask (ls ! k))"
  by (auto simp: toggleLayerMask_def split: option.splits)

subsection \<open>Drawing gestures\<close>

lemma mouse_down_drawing:
  assumes "activeToolRef s = Select \<or> activeToolRef s = CropTool"
    and "getActiveImageObject s \<noteq> None"
    and "target = None \<or> target \<noteq> selectionRectRef s"
  shows "isDrawing (mouse_down target p s)"
    and "tempSelection (mouse_down target p s) = Some (nextObject s)"
    and "startX (mouse_down target p s) = fst p"
    and "startY (mouse_down target p s) = snd p"
    and "props (mouse_down target p s) (nextObject s)
           = \<lparr>left = fst p, top' = snd p, scaleX = 1, scaleY = 1, width = 0, height = 0\<rparr>"
    and "selectionRectRef (mouse_down target p s) = None"
    and "undoStack (mouse_down target p s) = undoStack s"
    and "redoStack (mouse_down target p s) = redoStack s"
    and "maxHistorySize (mouse_down target p s) = maxHistorySize s"
    and "historyNotices (mouse_down target p s) = historyNotices s"
    and "objects (mouse_down target p s)
           = (case selectionRectRef s of None \<Rightarrow> objects s | Some r \<Rightarrow> remove1 r (objects s))
             @ [nextObject s]"
  using assms
  by (auto simp: mouse_down_def canvas_add_def canvas_remove_def Let_def split: option.splits)

lemma mouse_move_frame:
  "isDrawing (mouse_move q s) = isDrawing s"
  "tempSelection (mouse_move q s) = tempSelection s"
  "startX (mouse_move q s) = startX s"
  "startY (mouse_move q s) = startY s"
  "selectionRectRef (mouse_move q s) = selectionRectRef s"
  "selectionNotice (mouse_move q s) = selectionNotice s"
  "undoStack (mouse_move q s) = undoStack s"
  "redoStack (mouse_move q s) = redoStack s"
  "maxHistorySize (mouse_move q s) = maxHistorySize s"
  "historyNotices (mouse_move q s) = historyNotices s"
  "objects (mouse_move q s) = objects s"
  by (simp_all add: mouse_move_def Let_def split: option.splits)

lemma mouse_move_props:
  "isDrawing s \<Longrightarrow> tempSelection s = Some r \<Longrightarrow>
   props (mouse_move q s) r
     = (props s r)\<lparr>left := (if fst q < startX s then fst q else left (props s r)),
                   top' := (if snd q < startY s then snd q else top' (props s r)),
                   width := \<bar>fst q - startX s\<bar>, height := \<bar>snd q - startY s\<bar>\<rparr>"
  by (simp add: mouse_move_def Let_def)

lemma mouse_moves_Nil: "mouse_moves [] s = s"
  by (simp add: mouse_moves_def)

lemma mouse_moves_Cons: "mouse_moves (q # qs) s = mouse_moves qs (mouse_move q s)"
  by (simp add: mouse_moves_def)

lemma mouse_moves_snoc: "mouse_moves (qs @ [q]) s = mouse_move q (mouse_moves qs s)"
  by (simp add: mouse_moves_def)

lemma mouse_moves_frame:
  "isDrawing (mouse_moves qs s) = isDrawing s"
  "tempSelection (mouse_moves qs s) = tempSelection s"
  "startX (mouse_moves qs s) = startX s"
  "startY (mouse_moves qs s) = startY s"
  "selectionRectRef (mouse_moves qs s) = selectionRectRef s"
  "selectionNotice (mouse_moves qs s) = selectionNotice s"
  "undoStack (mouse_moves qs s) = undoStack s"
  "redoStack (mouse_moves qs s) = redoStack s"
  "maxHistorySize (mouse_moves qs s) = maxHistorySize s"
  "historyNotices (mouse_moves qs s) = historyNotices s"
  "objects (mouse_moves qs s) = objects s"
  by (induction qs arbitrary: s; simp add: mouse_moves_Nil mouse_moves_Cons mouse_move_frame)+

lemma sample_ready:
  "activeToolRef (setActiveTool t (addImageLayer i n w h (initial_editor cw ch))) = t"
  "i \<noteq> [] \<Longrightarrow> getActiveImageObject (setActiveTool t (addImageLayer i n w h (initial_editor cw ch))) = Some 0"
  "selectionRectRef (setActiveTool t (addImageLayer i n w h (initial_editor cw ch))) = None"
  "nextObject (setActiveTool t (addImageLayer i n w h (initial_editor cw ch))) = 1"
  "objects (setActiveTool t (addImageLayer i n w h (initial_editor cw ch))) = [0]"
  "undoStack (setActiveTool t (addImageLayer i n w h (initial_editor cw ch))) = []"
  "redoStack (setActiveTool t (addImageLayer i n w h (initial_editor cw ch))) = []"
  "maxHistorySize (setActiveTool t (addImageLayer i n w h (initial_editor cw ch))) = 50"
  "canvas_width (setActiveTool t (addImageLayer i n w h (initial_editor cw ch))) = cw"
  "canvas_height (setActiveTool t (addImageLayer i n w h (initial_editor cw ch))) = ch"
  "documentOriginRef (setActiveTool t (addImageLayer i n w h (initial_editor cw ch))) = \<lparr>origin_x = 0, origin_y = 0\<rparr>"
  "canvasSize (setActiveTool t (addImageLayer i n w h (initial_editor cw ch))) = None"
  "layerMapRef (setActiveTool t (addImageLayer i n w h (initial_editor cw ch))) = [i \<mapsto> 0]"
  "activeLayerIdRef (setActiveTool t (addImageLayer i n w h (initial_editor cw ch))) = Some i"
  by (cases i; simp add: setActiveTool_def addImageLayer_def addLayer_def updateLayerMap_def canvas_add_def
      initial_editor_def getActiveImageObject_def Let_def)+

lemma or_default_zero [simp]: "or_default a 0 = a"
  by (simp add: or_default_def)

lemma mouse_up_discards:
  assumes "isDrawing s" and "tempSelection s = Some r"
    and "width (props s r) < 5 \<or> height (props s r) < 5"
  shows "mouse_up s = (canvas_remove r s)\<lparr>isDrawing := False, tempSelection := None\<rparr>"
  using assms by (auto simp: mouse_up_def canvas_remove_def Let_def)

lemma mouse_up_records:
  assumes "isDrawing s" and "tempSelection s = Some r"
    and "\<not> (width (props s r) < 5 \<or> height (props s r) < 5)"
  shows "mouse_up s = (execute (CreateSelection r None)
                         (canvas_remove r (s\<lparr>isDrawing := False, selectionRectRef := Some r\<rparr>)))
                      \<lparr>tempSelection := None\<rparr>"
  using assms by (simp add: mouse_up_def canvas_remove_def Let_def)

lemma execute_CreateSelection_fields:
  "selectionRectRef (execute (CreateSelection r None) s) = Some r"
  "objects (execute (CreateSelection r None) s) = objects s @ [r]"
  "selectionNotice (execute (CreateSelection r None) s) = getSelectionData s"
  by (simp_all add: execute_def notifyChange_def Let_def CreateSelectionAction_execute_def
      fabric_defs getSelectionData_def split: option.splits)

lemma drawn_size:
  assumes "isDrawing s" and "tempSelection s = Some r"
    and "width (props s r) = \<bar>fst q0 - startX s\<bar>" and "height (props s r) = \<bar>snd q0 - startY s\<bar>"
  shows "width (props (mouse_moves qs s) r) = \<bar>fst (last (q0 # qs)) - startX s\<bar>
       \<and> height (props (mouse_moves qs s) r) = \<bar>snd (last (q0 # qs)) - startY s\<bar>"
  using assms
proof (induction qs rule: rev_induct)
  case Nil
  then show ?case by (simp add: mouse_moves_Nil)
next
  case (snoc q qs)
  then show ?case
    by (simp add: mouse_moves_snoc mouse_move_props mouse_moves_frame)
qed

lemma drag_state:
  assumes "activeToolRef s = Select \<or> activeToolRef s = CropTool"
    and "getActiveImageObject s \<noteq> None"
    and "target = None \<or> target \<noteq> selectionRectRef s"
  shows "isDrawing (mouse_moves qs (mouse_down target p s))"
    and "tempSelection (mouse_moves qs (mouse_down target p s)) = Some (nextObject s)"
    and "width (props (mouse_moves qs (mouse_down target p s)) (nextObject s))
           = \<bar>fst (last (p # qs)) - fst p\<bar>"
    and "height (props (mouse_moves qs (mouse_down target p s)) (nextObject s))
           = \<bar>snd (last (p # qs)) - snd p\<bar>"
proof -
  note d = mouse_down_drawing [OF assms, of p]
  show "isDrawing (mouse_moves qs (mouse_down target p s))"
    and "tempSelection (mouse_moves qs (mouse_down target p s)) = Some (nextObject s)"
    using d by (simp_all add: mouse_moves_frame)
  have "width (props (mouse_down target p s) (nextObject s)) = \<bar>fst p - startX (mouse_down target p s)\<bar>"
    and "height (props (mouse_down target p s) (nextObject s)) = \<bar>snd p - startY (mouse_down target p s)\<bar>"
    using d by simp_all
  from drawn_size [OF d(1) d(2) this, of qs]
  show "width (props (mouse_moves qs (mouse_down target p s)) (nextObject s))
           = \<bar>fst (last (p # qs)) - fst p\<bar>"
    and "height (props (mouse_moves qs (mouse_down target p s)) (nextObject s))
           = \<bar>snd (last (p # qs)) - snd p\<bar>"
    using d by simp_all
qed

lemma mouse_up_small:
  assumes "isDrawing t" and "tempSelection t = Some r"
    and "width (props t r) < 5 \<or> height (props t r) < 5"
  shows "mouse_up t = (canvas_remove r t)\<lparr>isDrawing := False, tempSelection := None\<rparr>
      \<and> undoStack (mouse_up t) = undoStack t \<and> redoStack (mouse_up t) = redoStack t
      \<and> historyNotices (mouse_up t) = historyNotices t
      \<and> selectionRectRef (mouse_up t) = selectionRectRef t
      \<and> selectionNotice (mouse_up t) = selectionNotice t"
  using mouse_up_discards [OF assms] by (simp add: canvas_remove_def)

lemma mouse_up_big:
  assumes "isDrawing t" and "tempSelection t = Some r"
    and "5 \<le> width (props t r)" and "5 \<le> height (props t r)"
    and "0 < maxHistorySize t"
  shows "undoStack (mouse_up t)
        = (if length (undoStack t) < maxHistorySize t then undoStack t @ [CreateSelection r None]
           else tl (undoStack t) @ [CreateSelection r None])
      \<and> redoStack (mouse_up t) = []
      \<and> selectionRectRef (mouse_up t) = Some r
      \<and> objects (mouse_up t) = remove1 r (objects t) @ [r]"
proof -
  have "\<not> (width (props t r) < 5 \<or> height (props t r) < 5)"
    using assms by simp
  from mouse_up_records [OF assms(1,2) this] assms(5) show ?thesis
    by (cases "undoStack t")
       (auto simp: execute_stacks execute_CreateSelection_fields canvas_remove_def)
qed

lemma drag_short:
  assumes a: "activeToolRef s = Select \<or> activeToolRef s = CropTool"
      "getActiveImageObject s \<noteq> None"
      "target = None \<or> target \<noteq> selectionRectRef s"
    and b: "\<bar>fst (last (p # qs)) - fst p\<bar> < 5 \<or> \<bar>snd (last (p # qs)) - snd p\<bar> < 5"
  shows "undoStack (drag target p qs s) = undoStack s
      \<and> redoStack (drag target p qs s) = redoStack s
      \<and> historyNotices (drag target p qs s) = historyNotices s
      \<and> selectionRectRef (drag target p qs s) = None"
proof -
  note st = drag_state [OF a, of qs p]
  have "width (props (mouse_moves qs (mouse_down target p s)) (nextObject s)) < 5
      \<or> height (props (mouse_moves qs (mouse_down target p s)) (nextObject s)) < 5"
    using b st(3,4) by simp
  from mouse_up_small [OF st(1,2) this] show ?thesis
    using mouse_down_drawing [OF a, of p]
    by (simp add: drag_def mouse_moves_frame canvas_remove_def)
qed

lemma drag_long:
  assumes a: "activeToolRef s = Select \<or> activeToolRef s = CropTool"
      "getActiveImageObject s \<noteq> None"
      "target = None \<or> target \<noteq> selectionRectRef s"
    and b: "5 \<le> \<bar>fst (last (p # qs)) - fst p\<bar>" "5 \<le> \<bar>snd (last (p # qs)) - snd p\<bar>"
    and c: "length (undoStack s) < maxHistorySize s"
  shows "undoStack (drag target p qs s) = undoStack s @ [CreateSelection (nextObject s) None]
      \<and> selectionRectRef (drag target p qs s) = Some (nextObject s)"
proof -
  note st = drag_state [OF a, of qs p]
  note d = mouse_down_drawing [OF a, of p]
  have w: "5 \<le> width (props (mouse_moves qs (mouse_down target p s)) (nextObject s))"
    "5 \<le> height (props (mouse_moves qs (mouse_down target p s)) (nextObject s))"
    using b st(3,4) by simp_all
  have m: "0 < maxHistorySize (mouse_moves qs (mouse_down target p s))"
    using c d by (simp add: mouse_moves_frame)
  from mouse_up_big [OF st(1,2) w m] show ?thesis
    using d c by (simp add: drag_def mouse_moves_frame)
qed

subsection \<open>The canvas size and the document origin\<close>

lemma action_execute_size [simp]:
  "canvas_width (action_execute a s) = canvas_width s"
  "canvas_height (action_execute a s) = canvas_height s"
  "canvasSize (action_execute a s) = canvasSize s"
  "documentOriginRef (action_execute a s) = documentOriginRef s"
  by (cases a; simp add: command_defs fabric_defs Let_def split: option.splits prod.splits)+

lemma action_undo_size [simp]:
  "canvas_width (action_undo a s) = canvas_width s"
  "canvas_height (action_undo a s) = canvas_height s"
  "canvasSize (action_undo a s) = canvasSize s"
  "documentOriginRef (action_undo a s) = documentOriginRef s"
  by (cases a; simp add: command_defs fabric_defs Let_def split: option.splits prod.splits)+

lemma run_call_size:
  "canvas_width (run_call c s) = canvas_width s"
  "canvas_height (run_call c s) = canvas_height s"
  "canvasSize (run_call c s) = canvasSize s"
  "documentOriginRef (run_call c s) = documentOriginRef s"
  by (cases c; simp add: execute_def undo_def redo_def clear_def notifyChange_def Let_def)+

lemma execute_size:
  "canvas_width (execute a s) = canvas_width s"
  "canvas_height (execute a s) = canvas_height s"
  "canvasSize (execute a s) = canvasSize s"
  "documentOriginRef (execute a s) = documentOriginRef s"
  using run_call_size [of "Execute a" s] by simp_all

lemma undo_size:
  "canvas_width (undo s) = canvas_width s"
  "canvas_height (undo s) = canvas_height s"
  "canvasSize (undo s) = canvasSize s"
  "documentOriginRef (undo s) = documentOriginRef s"
  using run_call_size [of Undo s] by simp_all

lemma redo_size:
  "canvas_width (redo s) = canvas_width s"
  "canvas_height (redo s) = canvas_height s"
  "canvasSize (redo s) = canvasSize s"
  "documentOriginRef (redo s) = documentOriginRef s"
  using run_call_size [of Redo s] by simp_all

lemma run_calls_size:
  "canvas_width (run_calls cs s) = canvas_width s"
  "canvas_height (run_calls cs s) = canvas_height s"
  "canvasSize (run_calls cs s) = canvasSize s"
  "documentOriginRef (run_calls cs s) = documentOriginRef s"
  by (induction cs arbitrary: s; simp add: run_calls_Nil run_calls_Cons run_call_size)+

lemma crop_size:
  "canvas_width (snd (crop w h x y s)) = canvas_width s"
  "canvas_height (snd (crop w h x y s)) = canvas_height s"
  "canvasSize (snd (crop w h x y s)) = canvasSize s"
  "documentOriginRef (snd (crop w h x y s)) = documentOriginRef s"
  by (simp_all add: crop_def Let_def execute_size split: option.splits)

lemma crop_accepts:
  assumes "selectionRectRef s = Some r" and "0 < w" and "0 < h"
  shows "fst (crop w h x y s) = Completed"
    and "maxHistorySize (snd (crop w h x y s)) = maxHistorySize s"
    and "redoStack (snd (crop w h x y s)) = []"
  using assms
  by (simp_all add: crop_def Let_def execute_stacks split: option.splits)

lemma crop_records:
  assumes "selectionRectRef s = Some r" and "0 < w" and "0 < h"
    and "length (undoStack s) < maxHistorySize s"
  shows "\<exists>a. undoStack (snd (crop w h x y s)) = undoStack s @ [Crop a]
           \<and> newWidth a = w \<and> newHeight a = h
           \<and> oldWidth a = canvas_width s \<and> oldHeight a = canvas_height s
           \<and> oldDocOrigin a = documentOriginRef s
           \<and> newDocOrigin a = \<lparr>origin_x = origin_x (documentOriginRef s) + x,
                                 origin_y = origin_y (documentOriginRef s) + y\<rparr>"
  using assms
  by (simp add: crop_def Let_def execute_stacks split: option.splits)

lemma mouse_size:
  "canvas_width (mouse_down t p s) = canvas_width s"
  "canvas_height (mouse_down t p s) = canvas_height s"
  "canvasSize (mouse_down t p s) = canvasSize s"
  "documentOriginRef (mouse_down t p s) = documentOriginRef s"
  "canvas_width (mouse_move p s) = canvas_width s"
  "canvas_height (mouse_move p s) = canvas_height s"
  "canvasSize (mouse_move p s) = canvasSize s"
  "documentOriginRef (mouse_move p s) = documentOriginRef s"
  "canvas_width (mouse_up s) = canvas_width s"
  "canvas_height (mouse_up s) = canvas_height s"
  "canvasSize (mouse_up s) = canvasSize s"
  "documentOriginRef (mouse_up s) = documentOriginRef s"
  by (simp_all add: mouse_down_def mouse_move_def mouse_up_def Let_def canvas_add_def
      canvas_remove_def execute_size split: option.splits)

lemma mouse_moves_size:
  "canvas_width (mouse_moves qs s) = canvas_width s"
  "canvas_height (mouse_moves qs s) = canvas_height s"
  "canvasSize (mouse_moves qs s) = canvasSize s"
  "documentOriginRef (mouse_moves qs s) = documentOriginRef s"
  by (induction qs arbitrary: s; simp add: mouse_moves_Nil mouse_moves_Cons mouse_size)+

lemma drag_size:
  "canvas_width (drag t p qs s) = canvas_width s"
  "canvas_height (drag t p qs s) = canvas_height s"
  "canvasSize (drag t p qs s) = canvasSize s"
  "documentOriginRef (drag t p qs s) = documentOriginRef s"
  by (simp_all add: drag_def mouse_size mouse_moves_size)

lemma crop_invalid:
  assumes "w \<le> 0 \<or> h \<le> 0"
  shows "snd (crop w h x y s) = s"
    and "fst (crop w h x y s)
           = (case selectionRectRef s of
                None \<Rightarrow> Returned_silently
              | Some r \<Rightarrow> Reported ''Invalid crop dimensions'')"
  using assms by (auto simp: crop_def split: option.splits)

subsection \<open>Executing a command twice\<close>

lemma setLayerMask_twice: "setLayerMask i d (setLayerMask i d ls) = setLayerMask i d ls"
  by (induction ls) (auto simp: setLayerMask_def split: option.splits)

lemma execute_twice_fields:
  "props (action_execute c (action_execute c s)) = props (action_execute c s)"
  "selectionRectRef (action_execute c (action_execute c s)) = selectionRectRef (action_execute c s)"
  "layerMapRef (action_execute c (action_execute c s)) = layerMapRef (action_execute c s)"
  "imageNotice (action_execute c (action_execute c s)) = imageNotice (action_execute c s)"
  by (cases c; simp add: command_defs fabric_defs Let_def split: option.splits prod.splits)+

lemma execute_twice_layers:
  "\<forall>i. c \<noteq> ToggleMask i \<Longrightarrow>
   layers (action_execute c (action_execute c s)) = layers (action_execute c s)"
  by (cases c; simp add: command_defs fabric_defs Let_def setLayerMask_twice
      split: option.splits prod.splits)

lemma execute_twice_set:
  "distinct (objects s) \<Longrightarrow>
   set (objects (action_execute c (action_execute c s))) = set (objects (action_execute c s))"
  by (cases c)
     (auto simp add: command_defs fabric_defs Let_def remove1_append set_remove1_eq
       split: option.splits prod.splits if_splits)

lemma execute_twice_objects:
  "distinct (objects s) \<Longrightarrow> \<forall>r p. c \<noteq> CreateSelection r p \<Longrightarrow>
   \<forall>a. c = Crop a \<longrightarrow> crop_previousImage a = None \<or> crop_newImage a = None \<Longrightarrow>
   objects (action_execute c (action_execute c s)) = objects (action_execute c s)"
  by (cases c)
     (auto simp add: command_defs fabric_defs Let_def remove1_idem
       split: option.splits prod.splits)

lemma create_twice_objects:
  assumes "distinct (objects s)" and "p \<noteq> Some r"
  shows "objects (action_execute (CreateSelection r p) (action_execute (CreateSelection r p) s))
         = objects (action_execute (CreateSelection r p) s) @ [r]"
  using assms
  by (cases p)
     (simp_all add: CreateSelectionAction_execute_def fabric_defs Let_def remove1_append
       remove1_idem)

lemma crop_twice_objects:
  assumes "distinct (objects s)"
    and "crop_previousImage a = Some pv" and "crop_newImage a = Some nw"
    and "nw \<noteq> pv" and "nw \<noteq> crop_selection a"
  shows "objects (action_execute (Crop a) (action_execute (Crop a) s))
         = objects (action_execute (Crop a) s) @ [nw]"
proof -
  define ys where "ys = remove1 pv (remove1 (crop_selection a) (objects s))"
  have once: "objects (action_execute (Crop a) s) = ys @ [nw]"
    using assms(2,3)
    by (simp add: CropAction_execute_def fabric_defs Let_def ys_def)
  have "crop_selection a \<notin> set ys" and "pv \<notin> set ys"
    using assms(1) by (auto simp: ys_def)
  with assms(4,5) have "remove1 pv (remove1 (crop_selection a) (ys @ [nw])) = ys @ [nw]"
    by (simp add: remove1_append remove1_idem)
  then have "objects (action_execute (Crop a) (action_execute (Crop a) s)) = (ys @ [nw]) @ [nw]"
    using assms(2,3) once
    by (simp add: CropAction_execute_def fabric_defs Let_def)
  with once show ?thesis
    by simp
qed

lemma toggle_execute_twice:
  "layers (action_execute (ToggleMask i) (action_execute (ToggleMask i) s)) = layers s"
  by (simp add: ToggleMaskAction_execute_def toggle_twice)

lemma toggle_negates:
  "k < length (layers s) \<Longrightarrow> layer_id (layers s ! k) = i \<Longrightarrow>
   layer_mask (layers s ! k) = Some m \<Longrightarrow>
   layer_mask (layers (action_execute (ToggleMask i) s) ! k)
     = Some (m\<lparr>mask_visible := \<not> mask_visible m\<rparr>)"
  by (simp add: ToggleMaskAction_execute_def toggleLayerMask_def)

lemma toggle_changes:
  assumes "l \<in> set (layers s)" and "layer_id l = i" and "layer_mask l \<noteq> None"
  shows "action_execute (ToggleMask i) (action_execute (ToggleMask i) s)
         \<noteq> action_execute (ToggleMask i) s"
proof
  assume "action_execute (ToggleMask i) (action_execute (ToggleMask i) s)
      = action_execute (ToggleMask i) s"
  then have same: "layers (action_execute (ToggleMask i) s) = layers s"
    using toggle_execute_twice [of i s] by simp
  from assms(1) obtain k where k: "k < length (layers s)" "layers s ! k = l"
    by (auto simp: in_set_conv_nth)
  from assms(3) obtain m where m: "layer_mask l = Some m"
    by auto
  from toggle_negates [of k s i m] k m assms(2)
  have "layer_mask (layers (action_execute (ToggleMask i) s) ! k)
      = Some (m\<lparr>mask_visible := \<not> mask_visible m\<rparr>)"
    by simp
  with same k m have "m\<lparr>mask_visible := \<not> mask_visible m\<rparr> = m"
    by simp
  then have "mask_visible (m\<lparr>mask_visible := \<not> mask_visible m\<rparr>) = mask_visible m"
    by simp
  then show False
    by simp
qed

subsection \<open>Undoing what was executed\<close>

lemma graph_view_execute: "graph_view (execute c s) = graph_view (action_execute c s)"
  by (simp add: graph_view_def execute_def notifyChange_def Let_def)

lemma graph_view_undo:
  "undoStack s = us @ [c] \<Longrightarrow> graph_view (undo s) = graph_view (action_undo c (s\<lparr>undoStack := us\<rparr>))"
  by (simp add: graph_view_def undo_def notifyChange_def Let_def)

lemma graph_view_stack [simp]:
  "graph_view (s\<lparr>undoStack := us\<rparr>) = graph_view s"
  "graph_view (s\<lparr>redoStack := rs\<rparr>) = graph_view s"
  "graph_view (s\<lparr>historyNotices := hs\<rparr>) = graph_view s"
  by (simp_all add: graph_view_def)

lemma action_undo_cong:
  "graph_view s = graph_view t \<Longrightarrow> graph_view (action_undo c s) = graph_view (action_undo c t)"
  by (cases c)
     (auto simp: graph_view_def command_defs fabric_defs Let_def split: option.splits prod.splits)

lemma on_top_snoc: "on_top ob xs \<longleftrightarrow> (\<exists>ys. xs = ys @ [ob] \<and> ob \<notin> set ys)"
  by (cases xs rule: rev_cases) (auto simp: on_top_def)

text \<open>One command, executed in a state it fits and undone.\<close>

lemma undo_after_execute:
  "fits c s \<Longrightarrow>
   objects (action_undo c (action_execute c s)) = objects s
   \<and> layerMapRef (action_undo c (action_execute c s)) = layerMapRef s"
  by (cases c)
     (auto simp: command_defs fabric_defs Let_def on_top_snoc remove1_append
       split: option.splits prod.splits)

lemma action_undo_stack_cong:
  "objects s = objects t \<Longrightarrow> layerMapRef s = layerMapRef t \<Longrightarrow>
   objects (action_undo c s) = objects (action_undo c t)
   \<and> layerMapRef (action_undo c s) = layerMapRef (action_undo c t)"
  by (cases c; simp add: command_defs fabric_defs Let_def split: option.splits prod.splits)

lemma objects_execute: "objects (execute c s) = objects (action_execute c s)"
  by (simp add: execute_def notifyChange_def Let_def)

lemma layerMapRef_execute: "layerMapRef (execute c s) = layerMapRef (action_execute c s)"
  by (simp add: execute_def notifyChange_def Let_def)

lemma props_execute:
  "props (execute c s)
     = (case c of ModifySelection r g g' \<Rightarrow> (props s)(r := stored g') | _ \<Rightarrow> props s)"
  by (cases c)
     (simp_all add: execute_def notifyChange_def Let_def command_defs fabric_defs
       split: option.splits prod.splits)

lemma props_action_undo: "props (action_undo c s) = previous_geometry [c] (props s)"
  by (cases c)
     (simp_all add: command_defs fabric_defs Let_def split: option.splits prod.splits)

lemma execute_all_Nil: "execute_all [] s = s"
  by (simp add: execute_all_def)

lemma execute_all_Cons: "execute_all (c # cs) s = execute_all cs (execute c s)"
  by (simp add: execute_all_def)

lemma execute_all_snoc: "execute_all (cs @ [c]) s = execute c (execute_all cs s)"
  by (simp add: execute_all_def)

lemma execute_all_max: "maxHistorySize (execute_all cs s) = maxHistorySize s"
  by (induction cs arbitrary: s) (simp_all add: execute_all_Nil execute_all_Cons execute_stacks)

lemma undo_actions_append: "undo_actions (cs @ ds) s = undo_actions ds (undo_actions cs s)"
  by (induction cs arbitrary: s) simp_all

lemma undo_actions_cong:
  "graph_view s = graph_view t \<Longrightarrow> graph_view (undo_actions cs s) = graph_view (undo_actions cs t)"
proof (induction cs arbitrary: s t)
  case Nil
  then show ?case by simp
next
  case (Cons c cs)
  from Cons.prems have "graph_view (action_undo c s) = graph_view (action_undo c t)"
    by (rule action_undo_cong)
  then have "graph_view (undo_actions cs (action_undo c s))
      = graph_view (undo_actions cs (action_undo c t))"
    by (rule Cons.IH)
  then show ?case by simp
qed

text \<open>Undoing, last command first, what a sequence of commands did.\<close>

lemma commands_round_trip:
  "fits_all cs s \<Longrightarrow>
   objects (undo_actions (rev cs) (execute_all cs s)) = objects s
   \<and> layerMapRef (undo_actions (rev cs) (execute_all cs s)) = layerMapRef s"
proof (induction cs arbitrary: s)
  case Nil
  show ?case by (simp add: execute_all_Nil)
next
  case (Cons c cs)
  define t where "t = undo_actions (rev cs) (execute_all cs (execute c s))"
  from Cons have "objects t = objects (action_execute c s)"
    and "layerMapRef t = layerMapRef (action_execute c s)"
    by (simp_all add: t_def objects_execute layerMapRef_execute)
  then have "objects (action_undo c t) = objects (action_undo c (action_execute c s))
      \<and> layerMapRef (action_undo c t) = layerMapRef (action_undo c (action_execute c s))"
    by (rule action_undo_stack_cong)
  moreover have "fits c s"
    using Cons.prems by simp
  ultimately have "objects (action_undo c t) = objects s
      \<and> layerMapRef (action_undo c t) = layerMapRef s"
    using undo_after_execute [of c s] by simp
  then show ?case
    by (simp add: execute_all_Cons undo_actions_append t_def)
qed

text \<open>The properties of the drawables after the commands have been undone.\<close>

lemma previous_geometry_other:
  "a \<noteq> r \<Longrightarrow> previous_geometry cs (p(r := x)) a = previous_geometry cs p a"
  by (induction cs p rule: previous_geometry.induct) simp_all

lemma previous_geometry_upd:
  "(previous_geometry cs (p(r := x)))(r := y) = (previous_geometry cs p)(r := y)"
  by (rule ext) (simp add: previous_geometry_other)

lemma props_undo_actions:
  "props (undo_actions (rev cs) t) = previous_geometry cs (props t)"
proof (induction cs)
  case Nil
  show ?case by simp
next
  case (Cons c cs)
  have "props (undo_actions (rev (c # cs)) t)
      = previous_geometry [c] (props (undo_actions (rev cs) t))"
    by (simp add: undo_actions_append props_action_undo)
  with Cons show ?case
    by (cases c) simp_all
qed

lemma previous_geometry_executed:
  "previous_geometry cs (props (execute_all cs s)) = previous_geometry cs (props s)"
proof (induction cs arbitrary: s)
  case Nil
  show ?case by (simp add: execute_all_Nil)
next
  case (Cons c cs)
  have step: "previous_geometry cs (props (execute_all cs (execute c s)))
      = previous_geometry cs (props (execute c s))"
    by (rule Cons)
  show ?case
  proof (cases c)
    case (ModifySelection r g g')
    have "props (execute c s) = (props s)(r := stored g')"
      by (simp add: ModifySelection props_execute)
    then have "(previous_geometry cs (props (execute c s)))(r := stored g)
        = (previous_geometry cs (props s))(r := stored g)"
      by (simp only: previous_geometry_upd)
    with step show ?thesis
      by (simp only: ModifySelection execute_all_Cons previous_geometry.simps)
  qed (use step in \<open>simp_all add: execute_all_Cons props_execute\<close>)
qed

text \<open>The history manager's \<open>undo\<close>, called once for each of the topmost commands.\<close>

lemma undo_pops:
  "undoStack t = pre @ cs \<Longrightarrow>
   graph_view ((undo ^^ length cs) t) = graph_view (undo_actions (rev cs) t)
   \<and> undoStack ((undo ^^ length cs) t) = pre"
proof (induction cs arbitrary: t rule: rev_induct)
  case Nil
  then show ?case by simp
next
  case (snoc c cs)
  have st: "undoStack (undo t) = pre @ cs"
    using snoc.prems by (simp add: undo_stacks butlast_append)
  have "undoStack t = (pre @ cs) @ [c]"
    using snoc.prems by simp
  from graph_view_undo [OF this]
  have "graph_view (undo t) = graph_view (action_undo c (t\<lparr>undoStack := pre @ cs\<rparr>))" .
  also have "\<dots> = graph_view (action_undo c t)"
    by (rule action_undo_cong) simp
  finally have "graph_view (undo t) = graph_view (action_undo c t)" .
  then have "graph_view (undo_actions (rev cs) (undo t))
      = graph_view (undo_actions (rev cs) (action_undo c t))"
    by (rule undo_actions_cong)
  moreover have "(undo ^^ length (cs @ [c])) t = (undo ^^ length cs) (undo t)"
    by (simp only: length_append_singleton funpow_Suc_right o_apply)
  moreover have "undo_actions (rev (cs @ [c])) t = undo_actions (rev cs) (action_undo c t)"
    by simp
  ultimately show ?case
    using snoc.IH [OF st] by (simp only:)
qed

lemma executed_on_top:
  "length cs \<le> maxHistorySize s \<Longrightarrow> \<exists>pre. undoStack (execute_all cs s) = pre @ cs"
proof (induction cs rule: rev_induct)
  case Nil
  show ?case by (simp add: execute_all_Nil)
next
  case (snoc c cs)
  then obtain pre where pre: "undoStack (execute_all cs s) = pre @ cs"
    by auto
  show ?case
  proof (cases "length (pre @ cs) + 1 > maxHistorySize s")
    case True
    with snoc.prems have "pre \<noteq> []" by auto
    then have "tl (pre @ cs @ [c]) = tl pre @ cs @ [c]" by simp
    with True pre show ?thesis
      by (auto simp: execute_all_snoc execute_stacks execute_all_max)
  next
    case False
    with pre show ?thesis
      by (auto simp: execute_all_snoc execute_stacks execute_all_max)
  qed
qed

lemma execute_all_size:
  "canvas_width (execute_all cs s) = canvas_width s"
  "canvas_height (execute_all cs s) = canvas_height s"
  "canvasSize (execute_all cs s) = canvasSize s"
  "documentOriginRef (execute_all cs s) = documentOriginRef s"
  by (induction cs arbitrary: s; simp add: execute_all_Nil execute_all_Cons execute_size)+

lemma undo_times_size:
  "canvas_width ((undo ^^ n) s) = canvas_width s"
  "canvas_height ((undo ^^ n) s) = canvas_height s"
  "canvasSize ((undo ^^ n) s) = canvasSize s"
  "documentOriginRef ((undo ^^ n) s) = documentOriginRef s"
  by (induction n; simp add: undo_size)+

lemma history_round_trip:
  assumes "fits_all cs s" and "length cs \<le> maxHistorySize s"
  shows "objects ((undo ^^ length cs) (execute_all cs s)) = objects s"
    and "props ((undo ^^ length cs) (execute_all cs s)) = previous_geometry cs (props s)"
    and "layerMapRef ((undo ^^ length cs) (execute_all cs s)) = layerMapRef s"
    and "documentOriginRef ((undo ^^ length cs) (execute_all cs s)) = documentOriginRef s"
proof -
  from executed_on_top [OF assms(2)] obtain pre
    where "undoStack (execute_all cs s) = pre @ cs" ..
  from undo_pops [OF this]
  have v: "graph_view ((undo ^^ length cs) (execute_all cs s))
      = graph_view (undo_actions (rev cs) (execute_all cs s))" ..
  from v commands_round_trip [OF assms(1)]
  show "objects ((undo ^^ length cs) (execute_all cs s)) = objects s"
    and "layerMapRef ((undo ^^ length cs) (execute_all cs s)) = layerMapRef s"
    by (simp_all add: graph_view_def)
  from v show "props ((undo ^^ length cs) (execute_all cs s)) = previous_geometry cs (props s)"
    by (simp add: graph_view_def props_undo_actions previous_geometry_executed)
  show "documentOriginRef ((undo ^^ length cs) (execute_all cs s)) = documentOriginRef s"
    by (simp add: undo_times_size execute_all_size)
qed

lemma execute_all_bound:
  "length (undoStack s) \<le> maxHistorySize s \<Longrightarrow>
   length (undoStack (execute_all cs s)) \<le> maxHistorySize s"
proof (induction cs rule: rev_induct)
  case Nil
  then show ?case by (simp add: execute_all_Nil)
next
  case (snoc c cs)
  then show ?case
    by (auto simp: execute_all_snoc execute_stacks execute_all_max)
qed

lemma fits_all_create:
  "\<forall>x \<in> set (objects s). x < a \<Longrightarrow>
   fits_all (map (\<lambda>i. CreateSelection i None) [a..<a + n]) s"
proof (induction n arbitrary: a s)
  case 0
  show ?case by simp
next
  case (Suc n)
  have "\<forall>x \<in> set (objects (execute (CreateSelection a None) s)). x < Suc a"
    using Suc.prems
    by (auto simp: objects_execute CreateSelectionAction_execute_def fabric_defs Let_def less_Suc_eq)
  from Suc.IH [OF this]
  have "fits_all (map (\<lambda>i. CreateSelection i None) [Suc a..<Suc a + n])
      (execute (CreateSelection a None) s)" .
  moreover have "[a..<a + Suc n] = a # [Suc a..<Suc a + n]"
    by (subst upt_rec) simp
  moreover have "fits (CreateSelection a None) s"
    using Suc.prems by auto
  ultimately show ?case
    by (simp only: list.map fits_all.simps simp_thms)
qed

lemma undo_empty: "undoStack s = [] \<Longrightarrow> undo s = s"
  by (simp add: undo_def)

subsection \<open>A canvas with one image and a selection\<close>

lemma sample_image:
  "objects (addImageLayer i n w h (initial_editor cw ch)) = [0]"
  "layerMapRef (addImageLayer i n w h (initial_editor cw ch)) = [i \<mapsto> 0]"
  "maxHistorySize (addImageLayer i n w h (initial_editor cw ch)) = 50"
  "documentOriginRef (addImageLayer i n w h (initial_editor cw ch)) = \<lparr>origin_x = 0, origin_y = 0\<rparr>"
  by (simp_all add: addImageLayer_def addLayer_def updateLayerMap_def canvas_add_def
      initial_editor_def Let_def)

lemma action_execute_refs [simp]:
  "activeLayerIdRef (action_execute c s) = activeLayerIdRef s"
  "nextObject (action_execute c s) = nextObject s"
  "activeLayerIdRef (action_undo c s) = activeLayerIdRef s"
  "nextObject (action_undo c s) = nextObject s"
  by (cases c; simp add: command_defs fabric_defs Let_def split: option.splits prod.splits)+

lemma mouse_refs:
  "layerMapRef (mouse_down t p s) = layerMapRef s"
  "activeLayerIdRef (mouse_down t p s) = activeLayerIdRef s"
  "layerMapRef (mouse_move p s) = layerMapRef s"
  "activeLayerIdRef (mouse_move p s) = activeLayerIdRef s"
  "nextObject (mouse_move p s) = nextObject s"
  "layerMapRef (mouse_up s) = layerMapRef s"
  "activeLayerIdRef (mouse_up s) = activeLayerIdRef s"
  "nextObject (mouse_up s) = nextObject s"
  by (simp_all add: mouse_down_def mouse_move_def mouse_up_def Let_def canvas_add_def
      canvas_remove_def execute_def notifyChange_def CreateSelectionAction_execute_def
      handleSelectionChangeInternal_def split: option.splits)

lemma mouse_moves_refs:
  "layerMapRef (mouse_moves qs s) = layerMapRef s"
  "activeLayerIdRef (mouse_moves qs s) = activeLayerIdRef s"
  "nextObject (mouse_moves qs s) = nextObject s"
  by (induction qs arbitrary: s; simp add: mouse_moves_Nil mouse_moves_Cons mouse_refs)+

lemma mouse_down_next:
  assumes "activeToolRef s = Select \<or> activeToolRef s = CropTool"
    and "getActiveImageObject s \<noteq> None"
    and "target = None \<or> target \<noteq> selectionRectRef s"
  shows "nextObject (mouse_down target p s) = Suc (nextObject s)"
  using assms
  by (auto simp: mouse_down_def canvas_add_def canvas_remove_def Let_def split: option.splits)

lemma sample_selection:
  fixes t :: tool and i n :: string and w h cw ch :: real and p q :: "real \<times> real"
    and s :: editor
  assumes "t = Select \<or> t = CropTool" and "i \<noteq> []"
    and "5 \<le> \<bar>fst q - fst p\<bar>" and "5 \<le> \<bar>snd q - snd p\<bar>"
  defines "s \<equiv> drag None p [q] (setActiveTool t (addImageLayer i n w h (initial_editor cw ch)))"
  shows "objects s = [0, 1]" and "selectionRectRef s = Some 1"
    and "undoStack s = [CreateSelection 1 None]" and "maxHistorySize s = 50"
    and "layerMapRef s = [i \<mapsto> 0]" and "activeLayerIdRef s = Some i"
    and "nextObject s = 2" and "getActiveImageObject s = Some 0"
proof -
  define s0 where "s0 = setActiveTool t (addImageLayer i n w h (initial_editor cw ch))"
  have r: "activeToolRef s0 = Select \<or> activeToolRef s0 = CropTool"
    "getActiveImageObject s0 \<noteq> None" "None = None \<or> None \<noteq> selectionRectRef s0"
    and r': "undoStack s0 = []" "maxHistorySize s0 = 50" "nextObject s0 = 1"
      "objects s0 = [0]" "selectionRectRef s0 = None" "layerMapRef s0 = [i \<mapsto> 0]"
      "activeLayerIdRef s0 = Some i"
    using assms(1,2) by (simp_all add: s0_def sample_ready)
  have s: "s = mouse_up (mouse_moves [q] (mouse_down None p s0))"
    by (simp add: s_def s0_def drag_def)
  note d = mouse_down_drawing [OF r, of p]
  note st = drag_state [OF r, of "[q]" p]
  have m: "0 < maxHistorySize (mouse_moves [q] (mouse_down None p s0))"
    by (simp add: r' mouse_moves_frame d)
  have wh: "5 \<le> width (props (mouse_moves [q] (mouse_down None p s0)) (nextObject s0))"
    "5 \<le> height (props (mouse_moves [q] (mouse_down None p s0)) (nextObject s0))"
    using st(3,4) assms(3,4) by simp_all
  note up = mouse_up_big [OF st(1,2) wh m]
  show "objects s = [0, 1]" and "selectionRectRef s = Some 1"
    and "undoStack s = [CreateSelection 1 None]"
    using up by (simp_all add: s mouse_moves_frame d r')
  show "maxHistorySize s = 50"
    using st(1,2)
    by (simp add: s mouse_up_def Let_def execute_stacks canvas_remove_def mouse_moves_frame d r'
        split: option.splits)
  show l: "layerMapRef s = [i \<mapsto> 0]" and a: "activeLayerIdRef s = Some i"
    by (simp_all add: s mouse_refs mouse_moves_refs r')
  show "nextObject s = 2"
    by (simp add: s mouse_refs mouse_moves_refs mouse_down_next [OF r] r')
  show "getActiveImageObject s = Some 0"
    using assms(2) by (cases i) (simp_all add: getActiveImageObject_def l a)
qed

lemma crop_completes:
  assumes "selectionRectRef s = Some r" and "0 < w" and "0 < h"
    and "getActiveImageObject s = Some img"
  shows "\<exists>a. snd (crop w h x y s)
           = execute (Crop a)
               (s\<lparr>nextObject := Suc (nextObject s),
                  props := (props s)(nextObject s := \<lparr>left = x, top' = y, scaleX = 1, scaleY = 1,
                                                       width = w, height = h\<rparr>),
                  selectionRectRef := None\<rparr>)
         \<and> crop_selection a = r \<and> crop_previousImage a = Some img
         \<and> crop_newImage a = Some (nextObject s)
         \<and> crop_activeLayerId a = activeLayerIdRef s"
  using assms
  apply (simp add: crop_def Let_def)
  apply (rule exI, rule conjI, rule refl)
  apply simp
  done

subsection \<open>Where undoing does not restore the canvas\<close>

lemma drag_selects:
  assumes r: "activeToolRef s = Select \<or> activeToolRef s = CropTool"
      "getActiveImageObject s \<noteq> None"
    and none: "selectionRectRef s = None"
    and far: "5 \<le> \<bar>fst q - fst p\<bar>" "5 \<le> \<bar>snd q - snd p\<bar>"
    and room: "length (undoStack s) < maxHistorySize s"
    and new: "nextObject s \<notin> set (objects s)"
  shows "objects (drag None p [q] s) = objects s @ [nextObject s]"
    and "selectionRectRef (drag None p [q] s) = Some (nextObject s)"
    and "layerMapRef (drag None p [q] s) = layerMapRef s"
    and "activeLayerIdRef (drag None p [q] s) = activeLayerIdRef s"
    and "nextObject (drag None p [q] s) = Suc (nextObject s)"
    and "maxHistorySize (drag None p [q] s) = maxHistorySize s"
    and "getActiveImageObject (drag None p [q] s) = getActiveImageObject s"
proof -
  have r3: "None = None \<or> None \<noteq> selectionRectRef s"
    by simp
  note d = mouse_down_drawing [OF r r3, of p]
  note st = drag_state [OF r r3, of "[q]" p]
  have m: "0 < maxHistorySize (mouse_moves [q] (mouse_down None p s))"
    using room by (simp add: mouse_moves_frame d)
  have wh: "5 \<le> width (props (mouse_moves [q] (mouse_down None p s)) (nextObject s))"
    "5 \<le> height (props (mouse_moves [q] (mouse_down None p s)) (nextObject s))"
    using st(3,4) far by simp_all
  note up = mouse_up_big [OF st(1,2) wh m]
  have fresh: "remove1 (nextObject s) (objects s @ [nextObject s]) @ [nextObject s]
      = objects s @ [nextObject s]"
    using new by (simp add: remove1_append)
  show "objects (drag None p [q] s) = objects s @ [nextObject s]"
    using up fresh by (simp add: drag_def mouse_moves_frame d none)
  show "selectionRectRef (drag None p [q] s) = Some (nextObject s)"
    using up by (simp add: drag_def)
  show l: "layerMapRef (drag None p [q] s) = layerMapRef s"
    and a: "activeLayerIdRef (drag None p [q] s) = activeLayerIdRef s"
    by (simp_all add: drag_def mouse_refs mouse_moves_refs)
  show "nextObject (drag None p [q] s) = Suc (nextObject s)"
    by (simp add: drag_def mouse_refs mouse_moves_refs mouse_down_next [OF r r3])
  show "maxHistorySize (drag None p [q] s) = maxHistorySize s"
    using st(1,2)
    by (simp add: drag_def mouse_up_def Let_def execute_stacks canvas_remove_def
        mouse_moves_frame d split: option.splits)
  show "getActiveImageObject (drag None p [q] s) = getActiveImageObject s"
    by (simp add: getActiveImageObject_def l a)
qed

lemma two_layers:
  "activeToolRef (setActiveTool t (setActiveLayer (Some i) (addImageLayer j m w' h'
     (addImageLayer i n w h (initial_editor cw ch))))) = t"
  "objects (setActiveTool t (setActiveLayer (Some i) (addImageLayer j m w' h'
     (addImageLayer i n w h (initial_editor cw ch))))) = [0, 1]"
  "i \<noteq> j \<Longrightarrow> layerMapRef (setActiveTool t (setActiveLayer (Some i) (addImageLayer j m w' h'
     (addImageLayer i n w h (initial_editor cw ch))))) i = Some 0"
  "activeLayerIdRef (setActiveTool t (setActiveLayer (Some i) (addImageLayer j m w' h'
     (addImageLayer i n w h (initial_editor cw ch))))) = Some i"
  "selectionRectRef (setActiveTool t (setActiveLayer (Some i) (addImageLayer j m w' h'
     (addImageLayer i n w h (initial_editor cw ch))))) = None"
  "nextObject (setActiveTool t (setActiveLayer (Some i) (addImageLayer j m w' h'
     (addImageLayer i n w h (initial_editor cw ch))))) = 2"
  "undoStack (setActiveTool t (setActiveLayer (Some i) (addImageLayer j m w' h'
     (addImageLayer i n w h (initial_editor cw ch))))) = []"
  "maxHistorySize (setActiveTool t (setActiveLayer (Some i) (addImageLayer j m w' h'
     (addImageLayer i n w h (initial_editor cw ch))))) = 50"
  by (simp_all add: setActiveTool_def setActiveLayer_def addImageLayer_def addLayer_def
      updateLayerMap_def canvas_add_def initial_editor_def Let_def)

lemma action_undo_objects_cong:
  "objects s = objects t \<Longrightarrow> objects (action_undo c s) = objects (action_undo c t)"
  by (cases c; simp add: command_defs fabric_defs Let_def split: option.splits prod.splits)

lemma execute_on_top:
  "0 < maxHistorySize s \<Longrightarrow> \<exists>us. undoStack (execute c s) = us @ [c]"
  by (cases "undoStack s") (auto simp: execute_stacks)

lemma objects_undo:
  assumes "undoStack s = us @ [c]"
  shows "objects (undo s) = objects (action_undo c s)"
proof -
  have "objects (undo s) = objects (action_undo c (s\<lparr>undoStack := us\<rparr>))"
    using assms by (simp add: undo_def notifyChange_def Let_def)
  also have "\<dots> = objects (action_undo c s)"
    by (rule action_undo_objects_cong) simp
  finally show ?thesis .
qed

lemma objects_undo_execute:
  assumes "0 < maxHistorySize s"
  shows "objects (undo (execute c s)) = objects (action_undo c (action_execute c s))"
proof -
  from execute_on_top [OF assms] obtain us where "undoStack (execute c s) = us @ [c]" ..
  then have "objects (undo (execute c s)) = objects (action_undo c (execute c s))"
    by (rule objects_undo)
  also have "\<dots> = objects (action_undo c (action_execute c s))"
    by (rule action_undo_objects_cong) (simp add: objects_execute)
  finally show ?thesis .
qed

lemma crop_undo_stacking:
  "(let s1 = drag None (100, 50) [(500, 350)]
               (setActiveTool CropTool (setActiveLayer (Some ''L1'')
                 (addImageLayer ''L2'' ''b.png'' 1000 800
                   (addImageLayer ''L1'' ''a.png'' 1000 800 (initial_editor 1000 800)))))
    in objects s1 = [0, 1, 2]
       \<and> objects (snd (crop 400 300 100 50 s1)) = [1, 3]
       \<and> objects (undo (snd (crop 400 300 100 50 s1))) = [1, 0, 2])"
proof -
  define s0 where "s0 = setActiveTool CropTool (setActiveLayer (Some ''L1'')
                 (addImageLayer ''L2'' ''b.png'' 1000 800
                   (addImageLayer ''L1'' ''a.png'' 1000 800 (initial_editor 1000 800))))"
  define s1 where "s1 = drag None (100, 50) [(500, 350)] s0"
  have s0: "activeToolRef s0 = CropTool" "objects s0 = [0, 1]" "layerMapRef s0 ''L1'' = Some 0"
    "activeLayerIdRef s0 = Some ''L1''" "selectionRectRef s0 = None" "nextObject s0 = 2"
    "undoStack s0 = []" "maxHistorySize s0 = 50"
    by (simp_all add: s0_def two_layers)
  have img: "getActiveImageObject s0 = Some 0"
    by (simp add: getActiveImageObject_def s0)
  have pre: "activeToolRef s0 = Select \<or> activeToolRef s0 = CropTool"
    "getActiveImageObject s0 \<noteq> None" "selectionRectRef s0 = None"
    "5 \<le> \<bar>fst (500::real, 350::real) - fst (100::real, 50::real)\<bar>"
    "5 \<le> \<bar>snd (500::real, 350::real) - snd (100::real, 50::real)\<bar>"
    "length (undoStack s0) < maxHistorySize s0" "nextObject s0 \<notin> set (objects s0)"
    by (simp_all add: s0 img)
  note sel = drag_selects [OF pre, folded s1_def, unfolded s0 img]
  define s2 where "s2 = s1\<lparr>nextObject := Suc (nextObject s1),
      props := (props s1)(nextObject s1 := \<lparr>left = 100, top' = 50, scaleX = 1, scaleY = 1,
                                              width = 400, height = 300\<rparr>),
      selectionRectRef := None\<rparr>"
  have pos: "(0::real) < 400" "(0::real) < 300"
    by simp_all
  from crop_completes [OF sel(2) pos sel(7), of 100 50, folded s2_def]
  obtain a where a: "snd (crop 400 300 100 50 s1) = execute (Crop a) s2"
    "crop_selection a = 2" "crop_previousImage a = Some 0" "crop_newImage a = Some 3"
    "crop_activeLayerId a = Some ''L1''"
    by (auto simp: sel)
  have s2: "objects s2 = [0, 1, 2]" "maxHistorySize s2 = 50"
    by (simp_all add: s2_def sel)
  have "objects (snd (crop 400 300 100 50 s1)) = [1, 3]"
    by (simp add: a objects_execute CropAction_execute_def fabric_defs Let_def s2)
  moreover have "objects (undo (snd (crop 400 300 100 50 s1))) = [1, 0, 2]"
    using objects_undo_execute [of s2 "Crop a"]
    by (simp add: a CropAction_execute_def CropAction_undo_def fabric_defs Let_def s2)
  ultimately show ?thesis
    unfolding Let_def s0_def [symmetric] s1_def [symmetric] using sel(1) by simp
qed

lemma clear_of_absent_selection:
  "objects (undo (execute (ClearSelection 7) (initial_editor 800 600))) = [7]"
  using objects_undo_execute [of "initial_editor 800 600" "ClearSelection 7"]
  by (simp add: ClearSelectionAction_execute_def ClearSelectionAction_undo_def fabric_defs
      initial_editor_def)

lemma undo_51_leaves_first:
  "objects ((undo ^^ 51)
      (execute_all (map (\<lambda>i. CreateSelection i None) [0..<51]) (initial_editor 800 600)))
     = [0]"
proof -
  define s1 where "s1 = execute (CreateSelection 0 None) (initial_editor 800 600)"
  define cs where "cs = map (\<lambda>i. CreateSelection i None) [1..<51]"
  define t where "t = execute_all cs s1"
  have len: "length cs = 50"
    by (simp add: cs_def)
  have s1: "objects s1 = [0]" "maxHistorySize s1 = 50" "length (undoStack s1) = 1"
    by (simp_all add: s1_def objects_execute execute_stacks CreateSelectionAction_execute_def
        fabric_defs Let_def initial_editor_def)
  have split: "map (\<lambda>i. CreateSelection i None) [0..<51] = CreateSelection 0 None # cs"
    by (simp add: cs_def upt_conv_Cons)
  have all: "execute_all (map (\<lambda>i. CreateSelection i None) [0..<51]) (initial_editor 800 600) = t"
    by (simp add: split execute_all_Cons t_def s1_def)
  have "\<forall>x \<in> set (objects s1). x < 1"
    by (simp add: s1)
  from fits_all_create [OF this, of 50] have fits: "fits_all cs s1"
    by (simp add: cs_def)
  have room: "length cs \<le> maxHistorySize s1"
    by (simp add: len s1)
  from history_round_trip(1) [OF fits room]
  have restored: "objects ((undo ^^ 50) t) = [0]"
    by (simp add: t_def len s1)
  from executed_on_top [OF room] obtain pre where pre: "undoStack t = pre @ cs"
    unfolding t_def ..
  have "length (undoStack t) \<le> 50"
    using execute_all_bound [of s1 cs] by (simp add: t_def s1)
  with pre len have "pre = []"
    by simp
  with undo_pops [OF pre] have "undoStack ((undo ^^ 50) t) = []"
    by (simp add: len)
  then have "undo ((undo ^^ 50) t) = (undo ^^ 50) t"
    by (rule undo_empty)
  moreover have "(51::nat) = Suc 50"
    by simp
  then have "(undo ^^ 51) t = undo ((undo ^^ 50) t)"
    by (simp only: funpow.simps o_apply)
  ultimately have "objects ((undo ^^ 51) t) = [0]"
    using restored by simp
  then show ?thesis
    unfolding all .
qed

lemma upload_undo_loses_layer:
  "(let s = addImageLayer ''L2'' ''b.png'' 1000 800
              (addImageLayer ''L1'' ''a.png'' 1000 800 (initial_editor 1000 800))
    in objects s = [0, 1]
       \<and> objects (execute (UploadImage (Some 1) None 2) s) = [2]
       \<and> objects (undo (execute (UploadImage (Some 1) None 2) s)) = [1])"
proof -
  define s where "s = addImageLayer ''L2'' ''b.png'' 1000 800
              (addImageLayer ''L1'' ''a.png'' 1000 800 (initial_editor 1000 800))"
  have s: "objects s = [0, 1]" "maxHistorySize s = 50"
    by (simp_all add: s_def addImageLayer_def addLayer_def updateLayerMap_def canvas_add_def
        initial_editor_def Let_def)
  have "objects (execute (UploadImage (Some 1) None 2) s) = [2]"
    by (simp add: objects_execute UploadImageAction_execute_def fabric_defs Let_def)
  moreover have "objects (undo (execute (UploadImage (Some 1) None 2) s)) = [1]"
    using objects_undo_execute [of s "UploadImage (Some 1) None 2"]
    by (simp add: s UploadImageAction_execute_def UploadImageAction_undo_def fabric_defs Let_def)
  ultimately show ?thesis
    unfolding Let_def s_def [symmetric] using s(1) by simp
qed

lemma create_of_present_rectangle:
  "(let s = addImageLayer ''L2'' ''b.png'' 1000 800
              (addImageLayer ''L1'' ''a.png'' 1000 800 (initial_editor 1000 800))
    in objects s = [0, 1]
       \<and> objects (undo (execute (CreateSelection 0 None) s)) = [1, 0])"
proof -
  define s where "s = addImageLayer ''L2'' ''b.png'' 1000 800
              (addImageLayer ''L1'' ''a.png'' 1000 800 (initial_editor 1000 800))"
  have s: "objects s = [0, 1]" "maxHistorySize s = 50"
    by (simp_all add: s_def addImageLayer_def addLayer_def updateLayerMap_def canvas_add_def
        initial_editor_def Let_def)
  have "objects (undo (execute (CreateSelection 0 None) s)) = [1, 0]"
    using objects_undo_execute [of s "CreateSelection 0 None"]
    by (simp add: s CreateSelectionAction_execute_def CreateSelectionAction_undo_def fabric_defs
        Let_def)
  then show ?thesis
    unfolding Let_def s_def [symmetric] using s(1) by simp
qed

subsection \<open>Moving the selection rectangle\<close>

lemma mouse_down_on_selection:
  assumes "activeToolRef s = Select \<or> activeToolRef s = CropTool"
    and "getActiveImageObject s \<noteq> None" and "selectionRectRef s = Some r"
  shows "mouse_down (Some r) p s
         = s\<lparr>selectionBeforeModifyRef :=
               Some \<lparr>left = left (props s r), top' = top' (props s r),
                     scaleX = or_default (scaleX (props s r)) 1,
                     scaleY = or_default (scaleY (props s r)) 1,
                     width = width (props s r), height = height (props s r)\<rparr>\<rparr>"
proof -
  have a: "\<not> (activeToolRef s \<noteq> Select \<and> activeToolRef s \<noteq> CropTool)"
    using assms(1) by auto
  have b: "Some r \<noteq> None \<and> Some r = selectionRectRef s \<longleftrightarrow> True"
    using assms(3) by simp
  show ?thesis
    unfolding mouse_down_def
    by (simp only: a assms(2) b if_True if_False option.sel Let_def or_default_zero)
qed

lemma object_modified_executes:
  assumes "selectionBeforeModifyRef s = Some before" and "selectionRectRef s = Some r"
  shows "object_modified r s
         = (execute (ModifySelection r before
                       \<lparr>left = left (props s r), top' = top' (props s r),
                        scaleX = or_default (scaleX (props s r)) 1,
                        scaleY = or_default (scaleY (props s r)) 1,
                        width = width (props s r), height = height (props s r)\<rparr>) s)
           \<lparr>selectionBeforeModifyRef := None\<rparr>"
  using assms by (simp add: object_modified_def Let_def)

lemma stored_positive: "0 < scaleX g \<Longrightarrow> 0 < scaleY g \<Longrightarrow> stored g = g"
  by (simp add: stored_def constrainScale_def)

lemma props_undo:
  assumes "undoStack s = us @ [c]"
  shows "props (undo s) = previous_geometry [c] (props s)"
proof -
  have "props (undo s) = props (action_undo c (s\<lparr>undoStack := us\<rparr>))"
    using assms by (simp add: undo_def notifyChange_def Let_def)
  then show ?thesis
    by (simp add: props_action_undo)
qed

lemma mouse_tool:
  "activeToolRef (mouse_down t p s) = activeToolRef s"
  "activeToolRef (mouse_move p s) = activeToolRef s"
  "activeToolRef (mouse_up s) = activeToolRef s"
  by (simp_all add: mouse_down_def mouse_move_def mouse_up_def Let_def canvas_add_def
      canvas_remove_def execute_def notifyChange_def CreateSelectionAction_execute_def
      handleSelectionChangeInternal_def split: option.splits)

lemma mouse_moves_tool: "activeToolRef (mouse_moves qs s) = activeToolRef s"
  by (induction qs arbitrary: s) (simp_all add: mouse_moves_Nil mouse_moves_Cons mouse_tool)

lemma mouse_up_props: "props (mouse_up s) = props s"
  by (simp add: mouse_up_def Let_def canvas_remove_def props_execute split: option.splits)

text \<open>The rectangle that a drag from \<open>p\<close> down and to the right to \<open>q\<close> leaves.\<close>

lemma drag_geometry:
  assumes "activeToolRef s = Select \<or> activeToolRef s = CropTool"
    and "getActiveImageObject s \<noteq> None"
    and "fst p \<le> fst q" and "snd p \<le> snd q"
  shows "props (drag None p [q] s) (nextObject s)
         = \<lparr>left = fst p, top' = snd p, scaleX = 1, scaleY = 1,
            width = fst q - fst p, height = snd q - snd p\<rparr>"
    and "activeToolRef (drag None p [q] s) = activeToolRef s"
proof -
  have r3: "None = None \<or> None \<noteq> selectionRectRef s"
    by simp
  note d = mouse_down_drawing [OF assms(1,2) r3, of p]
  have "props (mouse_move q (mouse_down None p s)) (nextObject s)
      = \<lparr>left = fst p, top' = snd p, scaleX = 1, scaleY = 1,
         width = fst q - fst p, height = snd q - snd p\<rparr>"
    using assms(3,4) by (simp add: mouse_move_props [OF d(1,2)] d)
  then show "props (drag None p [q] s) (nextObject s)
         = \<lparr>left = fst p, top' = snd p, scaleX = 1, scaleY = 1,
            width = fst q - fst p, height = snd q - snd p\<rparr>"
    by (simp add: drag_def mouse_up_props mouse_moves_Cons mouse_moves_Nil)
  show "activeToolRef (drag None p [q] s) = activeToolRef s"
    by (simp add: drag_def mouse_tool mouse_moves_tool)
qed

text \<open>
  A selection is drawn from \<open>(100, 50)\<close> to \<open>(500, 350)\<close>, the pointer goes down on it,
  and fabric moves it to \<open>(200, 150)\<close>.
\<close>

lemma moved_selection:
  fixes s1 s3 :: editor and g g' :: geometry
  defines "s1 \<equiv> drag None (100, 50) [(500, 350)]
             (setActiveTool Select
               (addImageLayer ''L1'' ''a.png'' 1000 800 (initial_editor 1000 800)))"
    and "g \<equiv> \<lparr>left = 100, top' = 50, scaleX = 1, scaleY = 1, width = 400, height = 300\<rparr>"
    and "g' \<equiv> \<lparr>left = 200, top' = 150, scaleX = 1, scaleY = 1, width = 400, height = 300\<rparr>"
  defines "s3 \<equiv> set_geometry 1 g' (mouse_down (Some 1) (150, 100) s1)"
  shows "objects s3 = [0, 1]" and "props s3 1 = g'" and "selectionRectRef s3 = Some 1"
    and "selectionBeforeModifyRef s3 = Some g"
    and "undoStack s3 = [CreateSelection 1 None]" and "maxHistorySize s3 = 50"
    and "layerMapRef s3 = [''L1'' \<mapsto> 0]"
    and "documentOriginRef s3 = \<lparr>origin_x = 0, origin_y = 0\<rparr>"
    and "object_modified 1 s3
         = (execute (ModifySelection 1 g g') s3)\<lparr>selectionBeforeModifyRef := None\<rparr>"
proof -
  define s0 where "s0 = setActiveTool Select
               (addImageLayer ''L1'' ''a.png'' 1000 800 (initial_editor 1000 800))"
  have r: "activeToolRef s0 = Select \<or> activeToolRef s0 = CropTool"
    "getActiveImageObject s0 \<noteq> None"
    and r': "nextObject s0 = 1" "activeToolRef s0 = Select"
      "documentOriginRef s0 = \<lparr>origin_x = 0, origin_y = 0\<rparr>"
    by (simp_all add: s0_def sample_ready)
  have "Select = Select \<or> Select = CropTool" "''L1'' \<noteq> []"
    "5 \<le> \<bar>fst (500::real, 350::real) - fst (100::real, 50::real)\<bar>"
    "5 \<le> \<bar>snd (500::real, 350::real) - snd (100::real, 50::real)\<bar>"
    by simp_all
  note s1 = sample_selection [OF this, of "''a.png''" 1000 800 1000 800, folded s1_def]
  have "fst (100::real, 50::real) \<le> fst (500::real, 350::real)"
    "snd (100::real, 50::real) \<le> snd (500::real, 350::real)"
    by simp_all
  note geo = drag_geometry [OF r this, folded s0_def, unfolded r']
  have p1: "props s1 1 = g" and t1: "activeToolRef s1 = Select"
    using geo by (simp_all add: s1_def s0_def g_def)
  have o1: "documentOriginRef s1 = \<lparr>origin_x = 0, origin_y = 0\<rparr>"
    by (simp add: s1_def drag_size r' [unfolded s0_def])
  have "activeToolRef s1 = Select \<or> activeToolRef s1 = CropTool"
    "getActiveImageObject s1 \<noteq> None"
    by (simp_all add: t1 s1)
  from mouse_down_on_selection [OF this s1(2), of "(150, 100)"]
  have s2: "mouse_down (Some 1) (150, 100) s1 = s1\<lparr>selectionBeforeModifyRef := Some g\<rparr>"
    unfolding p1 by (simp add: g_def or_default_def)
  have st: "stored g' = g'"
    by (rule stored_positive) (simp_all add: g'_def)
  show "objects s3 = [0, 1]" and p3: "props s3 1 = g'" and r3: "selectionRectRef s3 = Some 1"
    and b3: "selectionBeforeModifyRef s3 = Some g"
    and "undoStack s3 = [CreateSelection 1 None]" and "maxHistorySize s3 = 50"
    and "layerMapRef s3 = [''L1'' \<mapsto> 0]"
    and "documentOriginRef s3 = \<lparr>origin_x = 0, origin_y = 0\<rparr>"
    unfolding s3_def s2 set_geometry_def by (simp_all add: st s1 o1)
  from object_modified_executes [OF b3 r3]
  show "object_modified 1 s3
         = (execute (ModifySelection 1 g g') s3)\<lparr>selectionBeforeModifyRef := None\<rparr>"
    unfolding p3 by (simp add: g'_def or_default_def)
qed

lemma modify_undo_moves_back:
  "(let s1 = drag None (100, 50) [(500, 350)]
               (setActiveTool Select
                 (addImageLayer ''L1'' ''a.png'' 1000 800 (initial_editor 1000 800)));
        s3 = set_geometry 1
               \<lparr>left = 200, top' = 150, scaleX = 1, scaleY = 1, width = 400, height = 300\<rparr>
               (mouse_down (Some 1) (150, 100) s1)
    in left (props s3 1) = 200 \<and> top' (props s3 1) = 150
       \<and> undoStack (object_modified 1 s3)
           = [CreateSelection 1 None,
              ModifySelection 1
                \<lparr>left = 100, top' = 50, scaleX = 1, scaleY = 1, width = 400, height = 300\<rparr>
                \<lparr>left = 200, top' = 150, scaleX = 1, scaleY = 1, width = 400, height = 300\<rparr>]
       \<and> left (props (object_modified 1 s3) 1) = 200
       \<and> top' (props (object_modified 1 s3) 1) = 150
       \<and> left (props (undo (object_modified 1 s3)) 1) = 100
       \<and> top' (props (undo (object_modified 1 s3)) 1) = 50)"
proof -
  define g where "g = \<lparr>left = 100, top' = 50, scaleX = 1, scaleY = 1,
    width = 400, height = (300::real)\<rparr>"
  define g' where "g' = \<lparr>left = 200, top' = 150, scaleX = 1, scaleY = 1,
    width = 400, height = (300::real)\<rparr>"
  define s3 where "s3 = set_geometry 1 g' (mouse_down (Some 1) (150, 100)
     (drag None (100, 50) [(500, 350)]
               (setActiveTool Select
                 (addImageLayer ''L1'' ''a.png'' 1000 800 (initial_editor 1000 800)))))"
  note m = moved_selection [folded g_def g'_def, folded s3_def]
  define s4 where "s4 = object_modified 1 s3"
  have st: "stored g = g" "stored g' = g'"
    by (rule stored_positive; simp add: g_def g'_def)+
  have us: "undoStack s4 = [CreateSelection 1 None, ModifySelection 1 g g']"
    unfolding s4_def m(9) by (simp add: execute_stacks m(5,6))
  have p4: "props s4 1 = g'"
    unfolding s4_def m(9) by (simp add: props_execute st)
  have "undoStack s4 = [CreateSelection 1 None] @ [ModifySelection 1 g g']"
    by (simp add: us)
  from props_undo [OF this] have p5: "props (undo s4) 1 = g"
    by (simp add: st)
  have c: "left (props s3 1) = 200" "top' (props s3 1) = 150"
    "left (props s4 1) = 200" "top' (props s4 1) = 150"
    "left (props (undo s4) 1) = 100" "top' (props (undo s4) 1) = 50"
    using m(2) p4 p5 by (simp_all add: g_def g'_def)
  show ?thesis
    unfolding Let_def g_def [symmetric] g'_def [symmetric] s3_def [symmetric] s4_def [symmetric]
    using c us by (intro conjI)
qed

lemma previous_geometry_unmoved:
  "\<forall>g g'. ModifySelection ob g g' \<notin> set cs \<Longrightarrow> previous_geometry cs p ob = p ob"
  by (induction cs p rule: previous_geometry.induct) auto

section \<open>The claims\<close>

text \<open>
  Claim C1, as stated, at inputs where it fails.
  \<^item> On the empty canvas of the mounted component, whose history manager keeps 50
    commands, 51 selections are created through the history manager, each a rectangle of
    its own, and \<open>undo\<close> is called 51 times. The 51st \<open>execute\<close> dropped the first
    command from the undo stack, so only 50 commands are undone: the first rectangle is
    still on the canvas, which was empty before.
  \<^item> Two image layers, the lower one active, and a selection: the canvas holds the
    images 0 and 1 and the rectangle 2, in this order. \<open>crop\<close> replaces image 0 by the new
    image 3, and \<open>undo\<close> puts image 0 and the rectangle back on top: the canvas holds 1,
    0, 2, the same drawables in another stacking order.
  \<^item> A \<open>ClearSelectionAction\<close> for a rectangle that is not on the canvas removes
    nothing, and its \<open>undo\<close> adds the rectangle.
  \<^item> Two image layers, and an \<open>UploadImageAction\<close> that replaces the upper image 1 by
    a new image 2: \<open>execute\<close> clears the canvas, and \<open>undo\<close> clears it again and adds
    image 1 only. The lower image 0 is gone.
  \<^item> Two image layers, and a \<open>CreateSelectionAction\<close> for the drawable 0, which is on
    the canvas already: \<open>execute\<close> adds it a second time, and \<open>undo\<close> removes its first
    occurrence. The canvas holds 1, 0.
  \<^item> A selection is drawn at \<open>(100, 50)\<close> and then moved with the pointer to
    \<open>(200, 150)\<close>. The \<open>object:modified\<close> handler executes the \<open>ModifySelectionAction\<close>
    when the rectangle is at \<open>(200, 150)\<close> already, and \<open>undo\<close> puts it at \<open>(100, 50)\<close>,
    where it was before the pointer went down on it: not where it was before the one
    command was executed.
\<close>

theorem undo_does_not_restore:
  "objects (initial_editor 800 600) = []
   \<and> objects ((undo ^^ 51)
        (execute_all (map (\<lambda>i. CreateSelection i None) [0..<51]) (initial_editor 800 600)))
       = [0]
   \<and> (let s1 = drag None (100, 50) [(500, 350)]
               (setActiveTool CropTool (setActiveLayer (Some ''L1'')
                 (addImageLayer ''L2'' ''b.png'' 1000 800
                   (addImageLayer ''L1'' ''a.png'' 1000 800 (initial_editor 1000 800)))))
      in objects s1 = [0, 1, 2]
         \<and> objects (snd (crop 400 300 100 50 s1)) = [1, 3]
         \<and> objects (undo (snd (crop 400 300 100 50 s1))) = [1, 0, 2])
   \<and> objects (undo (execute (ClearSelection 7) (initial_editor 800 600))) = [7]
   \<and> (let s = addImageLayer ''L2'' ''b.png'' 1000 800
                (addImageLayer ''L1'' ''a.png'' 1000 800 (initial_editor 1000 800))
      in objects s = [0, 1]
         \<and> objects (execute (UploadImage (Some 1) None 2) s) = [2]
         \<and> objects (undo (execute (UploadImage (Some 1) None 2) s)) = [1])
   \<and> (let s = addImageLayer ''L2'' ''b.png'' 1000 800
                (addImageLayer ''L1'' ''a.png'' 1000 800 (initial_editor 1000 800))
      in objects s = [0, 1]
         \<and> objects (undo (execute (CreateSelection 0 None) s)) = [1, 0])
   \<and> (let s1 = drag None (100, 50) [(500, 350)]
                 (setActiveTool Select
                   (addImageLayer ''L1'' ''a.png'' 1000 800 (initial_editor 1000 800)));
          s3 = set_geometry 1
                 \<lparr>left = 200, top' = 150, scaleX = 1, scaleY = 1, width = 400, height = 300\<rparr>
                 (mouse_down (Some 1) (150, 100) s1)
      in left (props s3 1) = 200 \<and> top' (props s3 1) = 150
         \<and> undoStack (object_modified 1 s3)
             = [CreateSelection 1 None,
                ModifySelection 1
                  \<lparr>left = 100, top' = 50, scaleX = 1, scaleY = 1, width = 400, height = 300\<rparr>
                  \<lparr>left = 200, top' = 150, scaleX = 1, scaleY = 1, width = 400, height = 300\<rparr>]
         \<and> left (props (object_modified 1 s3) 1) = 200
         \<and> top' (props (object_modified 1 s3) 1) = 150
         \<and> left (props (undo (object_modified 1 s3)) 1) = 100
         \<and> top' (props (undo (object_modified 1 s3)) 1) = 50)"
proof -
  have "objects (initial_editor 800 600) = []"
    by (simp add: initial_editor_def)
  with undo_51_leaves_first crop_undo_stacking clear_of_absent_selection
    upload_undo_loses_layer create_of_present_rectangle modify_undo_moves_back
  show ?thesis
    by (intro conjI)
qed

text \<open>
  Claim C1, amended. A command fits a state when what it recorded at construction agrees
  with the state: the drawable it adds is not on the canvas, the drawable it removes is
  on top of the stack (for a \<open>CropAction\<close> with images: the selection rectangle on top and
  the previous image right below it), the layer a \<open>CropAction\<close> rebinds is bound to the
  recorded previous image, and an \<open>UploadImageAction\<close> finds on the canvas just the image
  and selection it recorded. For every sequence of \<open>N\<close> commands, \<open>N\<close> no more than the
  history manager's \<open>maxHistorySize\<close>, each fitting the state it is executed in, \<open>N\<close> calls
  of \<open>undo\<close> after the \<open>N\<close> calls of \<open>execute\<close> give back the canvas's object array (the
  drawables and their stacking order), the layer bindings and the document origin. The
  drawables have their properties from before the sequence, except that a rectangle
  which \<open>ModifySelectionAction\<close>s of the sequence move has the previous state that the
  first of them recorded, as fabric stores it: the state from before the pointer moved
  the rectangle.
\<close>

theorem undo_restores_graph:
  "fits_all cs s \<and> length cs \<le> maxHistorySize s \<longrightarrow>
     objects ((undo ^^ length cs) (execute_all cs s)) = objects s
     \<and> layerMapRef ((undo ^^ length cs) (execute_all cs s)) = layerMapRef s
     \<and> documentOriginRef ((undo ^^ length cs) (execute_all cs s)) = documentOriginRef s
     \<and> props ((undo ^^ length cs) (execute_all cs s)) = previous_geometry cs (props s)
     \<and> (\<forall>ob. (\<forall>g g'. ModifySelection ob g g' \<notin> set cs) \<longrightarrow>
            props ((undo ^^ length cs) (execute_all cs s)) ob = props s ob)"
proof (intro impI, elim conjE)
  assume a: "fits_all cs s" "length cs \<le> maxHistorySize s"
  note r = history_round_trip [OF a]
  have "\<forall>ob. (\<forall>g g'. ModifySelection ob g g' \<notin> set cs) \<longrightarrow>
            props ((undo ^^ length cs) (execute_all cs s)) ob = props s ob"
    unfolding r(2) by (intro allI impI) (rule previous_geometry_unmoved)
  with r show "objects ((undo ^^ length cs) (execute_all cs s)) = objects s
     \<and> layerMapRef ((undo ^^ length cs) (execute_all cs s)) = layerMapRef s
     \<and> documentOriginRef ((undo ^^ length cs) (execute_all cs s)) = documentOriginRef s
     \<and> props ((undo ^^ length cs) (execute_all cs s)) = previous_geometry cs (props s)
     \<and> (\<forall>ob. (\<forall>g g'. ModifySelection ob g g' \<notin> set cs) \<longrightarrow>
            props ((undo ^^ length cs) (execute_all cs s)) ob = props s ob)"
    by (intro conjI)
qed

theorem undo_restores_graph_witness:
  "(let s1 = drag None (100, 50) [(500, 350)]
               (setActiveTool Select
                 (addImageLayer ''L1'' ''a.png'' 1000 800 (initial_editor 1000 800)));
        g = \<lparr>left = 100, top' = 50, scaleX = 1, scaleY = 1, width = 400, height = 300\<rparr>;
        g' = \<lparr>left = 200, top' = 150, scaleX = 1, scaleY = 1, width = 400, height = 300\<rparr>;
        s3 = set_geometry 1 g' (mouse_down (Some 1) (150, 100) s1);
        cs = [ModifySelection 1 g g', SetMask ''L1'' None (Some ''m''), ToggleMask ''L1'',
              ClearSelection 1]
    in object_modified 1 s3
         = (execute (ModifySelection 1 g g') s3)\<lparr>selectionBeforeModifyRef := None\<rparr>
       \<and> fits_all cs s3 \<and> length cs \<le> maxHistorySize s3
       \<and> objects s3 = [0, 1] \<and> props s3 1 = g'
       \<and> objects (execute_all cs s3) = [0]
       \<and> objects ((undo ^^ length cs) (execute_all cs s3)) = [0, 1]
       \<and> layerMapRef ((undo ^^ length cs) (execute_all cs s3)) = [''L1'' \<mapsto> 0]
       \<and> documentOriginRef ((undo ^^ length cs) (execute_all cs s3))
           = \<lparr>origin_x = 0, origin_y = 0\<rparr>
       \<and> props ((undo ^^ length cs) (execute_all cs s3)) 1 = g
       \<and> props ((undo ^^ length cs) (execute_all cs s3)) 0 = props s3 0)
   \<and> (let s1 = drag None (100, 50) [(500, 350)]
                (setActiveTool CropTool
                  (addImageLayer ''L1'' ''a.png'' 1000 800 (initial_editor 1000 800)))
      in objects s1 = [0, 1] \<and> layerMapRef s1 = [''L1'' \<mapsto> 0]
         \<and> objects (snd (crop 400 300 100 50 s1)) = [2]
         \<and> layerMapRef (snd (crop 400 300 100 50 s1)) = [''L1'' \<mapsto> 2]
         \<and> objects (undo (snd (crop 400 300 100 50 s1))) = [0, 1]
         \<and> layerMapRef (undo (snd (crop 400 300 100 50 s1))) = [''L1'' \<mapsto> 0])"
proof -
  define g where "g = \<lparr>left = 100, top' = 50, scaleX = 1, scaleY = 1,
    width = 400, height = (300::real)\<rparr>"
  define g' where "g' = \<lparr>left = 200, top' = 150, scaleX = 1, scaleY = 1,
    width = 400, height = (300::real)\<rparr>"
  define s3 where "s3 = set_geometry 1 g' (mouse_down (Some 1) (150, 100)
     (drag None (100, 50) [(500, 350)]
               (setActiveTool Select
                 (addImageLayer ''L1'' ''a.png'' 1000 800 (initial_editor 1000 800)))))"
  define cs where "cs = [ModifySelection 1 g g', SetMask ''L1'' None (Some ''m''),
    ToggleMask ''L1'', ClearSelection 1]"
  note m = moved_selection [folded g_def g'_def, folded s3_def]
  have st: "stored g = g"
    by (rule stored_positive) (simp_all add: g_def)
  have ex: "objects (execute_all [ModifySelection 1 g g', SetMask ''L1'' None (Some ''m''),
      ToggleMask ''L1''] s3) = [0, 1]"
    using m(1)
    by (simp add: execute_all_Cons execute_all_Nil objects_execute command_defs fabric_defs Let_def)
  have f: "fits_all cs s3"
    using m(1)
    by (simp add: cs_def objects_execute command_defs fabric_defs Let_def on_top_def)
  have l: "length cs \<le> maxHistorySize s3"
    by (simp add: cs_def m(6))
  have executed: "objects (execute_all cs s3) = [0]"
    using m(1)
    by (simp add: cs_def execute_all_Cons execute_all_Nil objects_execute command_defs
        fabric_defs Let_def)
  from undo_restores_graph [of cs s3] f l
  have rt: "objects ((undo ^^ length cs) (execute_all cs s3)) = objects s3"
    "layerMapRef ((undo ^^ length cs) (execute_all cs s3)) = layerMapRef s3"
    "documentOriginRef ((undo ^^ length cs) (execute_all cs s3)) = documentOriginRef s3"
    "props ((undo ^^ length cs) (execute_all cs s3)) = previous_geometry cs (props s3)"
    by simp_all
  have p1: "props ((undo ^^ length cs) (execute_all cs s3)) 1 = g"
    unfolding rt(4) by (simp add: cs_def st)
  have p0: "props ((undo ^^ length cs) (execute_all cs s3)) 0 = props s3 0"
    unfolding rt(4) by (simp add: cs_def)
  have first: "object_modified 1 s3
         = (execute (ModifySelection 1 g g') s3)\<lparr>selectionBeforeModifyRef := None\<rparr>
       \<and> fits_all cs s3 \<and> length cs \<le> maxHistorySize s3
       \<and> objects s3 = [0, 1] \<and> props s3 1 = g'
       \<and> objects (execute_all cs s3) = [0]
       \<and> objects ((undo ^^ length cs) (execute_all cs s3)) = [0, 1]
       \<and> layerMapRef ((undo ^^ length cs) (execute_all cs s3)) = [''L1'' \<mapsto> 0]
       \<and> documentOriginRef ((undo ^^ length cs) (execute_all cs s3))
           = \<lparr>origin_x = 0, origin_y = 0\<rparr>
       \<and> props ((undo ^^ length cs) (execute_all cs s3)) 1 = g
       \<and> props ((undo ^^ length cs) (execute_all cs s3)) 0 = props s3 0"
    using m(9) f l m(1,2) executed rt(1-3) p1 p0 unfolding m(1,7,8)
    by (intro conjI)
  define s1 where "s1 = drag None (100, 50) [(500, 350)]
                (setActiveTool CropTool
                  (addImageLayer ''L1'' ''a.png'' 1000 800 (initial_editor 1000 800)))"
  have "CropTool = Select \<or> CropTool = CropTool" "''L1'' \<noteq> []"
    "5 \<le> \<bar>fst (500::real, 350::real) - fst (100::real, 50::real)\<bar>"
    "5 \<le> \<bar>snd (500::real, 350::real) - snd (100::real, 50::real)\<bar>"
    by simp_all
  note s1 = sample_selection [OF this, of "''a.png''" 1000 800 1000 800, folded s1_def]
  define s2 where "s2 = s1\<lparr>nextObject := Suc (nextObject s1),
      props := (props s1)(nextObject s1 := \<lparr>left = 100, top' = 50, scaleX = 1, scaleY = 1,
                                              width = 400, height = 300\<rparr>),
      selectionRectRef := None\<rparr>"
  have pos: "(0::real) < 400" "(0::real) < 300"
    by simp_all
  from crop_completes [OF s1(2) pos s1(8), of 100 50, folded s2_def]
  obtain a where a: "snd (crop 400 300 100 50 s1) = execute (Crop a) s2"
    "crop_selection a = 1" "crop_previousImage a = Some 0" "crop_newImage a = Some 2"
    "crop_activeLayerId a = Some ''L1''"
    by (auto simp: s1)
  have s2: "objects s2 = [0, 1]" "layerMapRef s2 = [''L1'' \<mapsto> 0]" "maxHistorySize s2 = 50"
    by (simp_all add: s2_def s1)
  have f2: "fits_all [Crop a] s2"
    by (simp add: a s2 on_top_def)
  have l2: "length [Crop a] \<le> maxHistorySize s2"
    by (simp add: s2)
  have cropped: "objects (snd (crop 400 300 100 50 s1)) = [2]"
    "layerMapRef (snd (crop 400 300 100 50 s1)) = [''L1'' \<mapsto> 2]"
    by (simp_all add: a objects_execute layerMapRef_execute CropAction_execute_def fabric_defs
        Let_def s2)
  have "(undo ^^ length [Crop a]) (execute_all [Crop a] s2) = undo (snd (crop 400 300 100 50 s1))"
    by (simp add: execute_all_Cons execute_all_Nil a)
  with undo_restores_graph [of "[Crop a]" s2] f2 l2
  have undone: "objects (undo (snd (crop 400 300 100 50 s1))) = [0, 1]"
    "layerMapRef (undo (snd (crop 400 300 100 50 s1))) = [''L1'' \<mapsto> 0]"
    by (simp_all add: s2)
  have second: "objects s1 = [0, 1] \<and> layerMapRef s1 = [''L1'' \<mapsto> 0]
         \<and> objects (snd (crop 400 300 100 50 s1)) = [2]
         \<and> layerMapRef (snd (crop 400 300 100 50 s1)) = [''L1'' \<mapsto> 2]
         \<and> objects (undo (snd (crop 400 300 100 50 s1))) = [0, 1]
         \<and> layerMapRef (undo (snd (crop 400 300 100 50 s1))) = [''L1'' \<mapsto> 0]"
    using s1(1,5) cropped undone by (intro conjI)
  from first second show ?thesis
    unfolding Let_def g_def [symmetric] g'_def [symmetric] s3_def [symmetric] cs_def [symmetric]
      s1_def [symmetric]
    by (rule conjI)
qed

text \<open>
  Claim C2, at the input where the code departs from it. On a 1000 by 800 canvas with one
  image layer and the document origin at \<open>(0, 0)\<close>, the selection \<open>(100, 50, 400, 300)\<close>
  is drawn and \<open>crop(400, 300, 100, 50)\<close> is called. The call completes and records one
  \<open>CropAction\<close> that holds the new size \<open>(400, 300)\<close> and the new origin \<open>(100, 50)\<close>,
  but the canvas is still 1000 by 800, \<open>canvasSize\<close> is still unset and the document
  origin is still \<open>(0, 0)\<close>: \<open>execute\<close> never calls \<open>setCanvasSize\<close> or
  \<open>setDocumentOrigin\<close>. After \<open>undo\<close> and after \<open>redo\<close> they are the same again, so the
  origin after the redo is not \<open>old_origin + (100, 50)\<close>.
\<close>

theorem crop_keeps_size_and_origin:
  "(let s0 = setActiveTool CropTool
               (addImageLayer ''L1'' ''a.png'' 1000 800 (initial_editor 1000 800));
        s1 = drag None (100, 50) [(500, 350)] s0;
        s2 = snd (crop 400 300 100 50 s1);
        s3 = undo s2;
        s4 = redo s3
    in canvas_width s1 = 1000 \<and> canvas_height s1 = 800
       \<and> documentOriginRef s1 = \<lparr>origin_x = 0, origin_y = 0\<rparr>
       \<and> selectionRectRef s1 = Some 1
       \<and> fst (crop 400 300 100 50 s1) = Completed
       \<and> (\<exists>a. undoStack s2 = [CreateSelection 1 None, Crop a]
               \<and> newWidth a = 400 \<and> newHeight a = 300
               \<and> newDocOrigin a = \<lparr>origin_x = 100, origin_y = 50\<rparr>)
       \<and> canvas_width s2 = 1000 \<and> canvas_height s2 = 800 \<and> canvasSize s2 = None
       \<and> documentOriginRef s2 = \<lparr>origin_x = 0, origin_y = 0\<rparr>
       \<and> canvas_width s3 = 1000 \<and> canvas_height s3 = 800
       \<and> documentOriginRef s3 = \<lparr>origin_x = 0, origin_y = 0\<rparr>
       \<and> canvas_width s4 = 1000 \<and> canvas_height s4 = 800
       \<and> documentOriginRef s4 = \<lparr>origin_x = 0, origin_y = 0\<rparr>
       \<and> documentOriginRef s4 \<noteq> \<lparr>origin_x = 0 + 100, origin_y = 0 + 50\<rparr>)"
proof -
  define s0 where "s0 = setActiveTool CropTool
               (addImageLayer ''L1'' ''a.png'' 1000 800 (initial_editor 1000 800))"
  define s1 where "s1 = drag None (100, 50) [(500, 350)] s0"
  have r: "activeToolRef s0 = Select \<or> activeToolRef s0 = CropTool"
    "getActiveImageObject s0 \<noteq> None" "None = None \<or> None \<noteq> selectionRectRef s0"
    and r': "undoStack s0 = []" "maxHistorySize s0 = 50" "nextObject s0 = 1"
    "canvas_width s0 = 1000" "canvas_height s0 = 800" "canvasSize s0 = None"
    "documentOriginRef s0 = \<lparr>origin_x = 0, origin_y = 0\<rparr>"
    by (simp_all add: s0_def sample_ready)
  have big: "5 \<le> \<bar>fst (last [(100, 50), (500, 350)]) - fst (100::real, 50::real)\<bar>"
    "5 \<le> \<bar>snd (last [(100, 50), (500, 350)]) - snd (100::real, 50::real)\<bar>"
    "length (undoStack s0) < maxHistorySize s0"
    by (simp_all add: r')
  from drag_long [OF r big]
  have sel: "selectionRectRef s1 = Some 1" and us: "undoStack s1 = [CreateSelection 1 None]"
    by (simp_all add: s1_def r')
  have m1: "maxHistorySize s1 = 50"
    using r' by (simp add: s1_def drag_def mouse_up_def Let_def mouse_moves_frame execute_stacks
        mouse_down_drawing [OF r] canvas_remove_def del: or_default_zero split: option.splits)
  have sz1: "canvas_width s1 = 1000" "canvas_height s1 = 800" "canvasSize s1 = None"
    "documentOriginRef s1 = \<lparr>origin_x = 0, origin_y = 0\<rparr>"
    by (simp_all add: s1_def drag_size r')
  have room: "length (undoStack s1) < maxHistorySize s1"
    by (simp add: us m1)
  have pos: "(0::real) < 400" "(0::real) < 300"
    by simp_all
  from crop_records [OF sel pos room, of 100 50]
  obtain a where a: "undoStack (snd (crop 400 300 100 50 s1)) = [CreateSelection 1 None, Crop a]"
    "newWidth a = 400" "newHeight a = 300"
    "newDocOrigin a = \<lparr>origin_x = 100, origin_y = 50\<rparr>"
    by (auto simp: us sz1)
  show ?thesis
    unfolding Let_def s0_def [symmetric] s1_def [symmetric]
    using a sel sz1 crop_accepts(1) [OF sel pos, of 100 50]
    by (simp add: crop_size undo_size redo_size)
qed

text \<open>
  Claim C3. \<open>execute\<close> leaves the redo stack empty, whatever the state and the command:
  \<open>canRedo\<close> is false afterwards and a \<open>redo\<close> then changes nothing at all, neither the
  stacks nor any other part of the state, and it sends no notification. Over any
  sequence of calls that starts with an empty redo stack, the redo stack holds at most as
  many commands as there were calls of \<open>undo\<close> since the last \<open>execute\<close> or \<open>clear\<close>;
  so it is non-empty only when an \<open>undo\<close> was called after the last \<open>execute\<close>.
\<close>

theorem execute_clears_redoStack:
  "redoStack (execute c s) = []
   \<and> \<not> canRedo (execute c s)
   \<and> redo (execute c s) = execute c s
   \<and> (redoStack s = [] \<longrightarrow>
        length (redoStack (run_calls cs s)) \<le> count_list (since_last_execute cs) Undo)
   \<and> (redoStack s = [] \<and> redoStack (run_calls cs s) \<noteq> [] \<longrightarrow>
        Undo \<in> set (since_last_execute cs))"
proof -
  have "redoStack s = [] \<Longrightarrow> redoStack (run_calls cs s) \<noteq> [] \<Longrightarrow>
        Undo \<in> set (since_last_execute cs)"
    using redo_only_after_undo [of s cs]
    by (cases "count_list (since_last_execute cs) Undo = 0") (auto simp: count_list_0_iff)
  then show ?thesis
    using redo_only_after_undo [of s cs]
    by (simp add: execute_stacks canRedo_def redo_after_execute)
qed

theorem execute_clears_redoStack_witness:
  "(let c = ToggleMask ''L1''; s = initial_editor 800 600; cs = [Execute c, Undo]
    in redoStack (execute c s) = []
       \<and> redo (execute c s) = execute c s
       \<and> redoStack s = []
       \<and> redoStack (run_calls cs s) = [c]
       \<and> Undo \<in> set (since_last_execute cs)
       \<and> redoStack (run_calls (cs @ [Execute c]) s) = [])"
  using execute_clears_redoStack
    [of "ToggleMask ''L1''" "initial_editor 800 600" "[Execute (ToggleMask ''L1''), Undo]"]
  by (simp add: Let_def run_calls_def execute_stacks undo_stacks initial_editor_def)

text \<open>
  Claim C4. Once the two stacks together hold no more than \<open>maxHistorySize\<close> commands,
  the undo stack never grows beyond \<open>maxHistorySize\<close>, over any sequence of calls; for
  the history manager that Canvas.tsx constructs the bound is 50. An \<open>execute\<close> on a full
  undo stack drops the oldest command and leaves the redo stack empty. Calls of \<open>undo\<close>
  and \<open>redo\<close> after it only move the commands that \<open>execute\<close> left on the undo stack
  between the two stacks, so the dropped command (the commands being distinct objects) is
  on neither stack ever after and no \<open>redo\<close> brings it back.
\<close>

theorem undoStack_bounded:
  "(length (undoStack s) + length (redoStack s) \<le> maxHistorySize s \<longrightarrow>
      length (undoStack (run_calls cs s)) \<le> maxHistorySize s)
   \<and> length (undoStack (run_calls cs (initial_editor w h))) \<le> 50
   \<and> (length (undoStack s) = maxHistorySize s \<longrightarrow>
        undoStack (execute c s) = tl (undoStack s @ [c]) \<and> redoStack (execute c s) = [])
   \<and> ((\<forall>r \<in> set rs. is_undo_or_redo r) \<longrightarrow>
        undoStack (run_calls rs (execute c s)) @ rev (redoStack (run_calls rs (execute c s)))
          = undoStack (execute c s))
   \<and> (length (undoStack s) = maxHistorySize s \<and> 0 < maxHistorySize s
        \<and> distinct (undoStack s @ [c]) \<and> (\<forall>r \<in> set rs. is_undo_or_redo r) \<longrightarrow>
        hd (undoStack s) \<notin> set (undoStack (run_calls rs (execute c s)))
        \<and> hd (undoStack s) \<notin> set (redoStack (run_calls rs (execute c s))))"
proof -
  have bound: "length (undoStack t) + length (redoStack t) \<le> maxHistorySize t \<Longrightarrow>
      length (undoStack (run_calls cs t)) \<le> maxHistorySize t" for t
    using run_calls_bound [of t cs] by simp
  have fresh: "length (undoStack (run_calls cs (initial_editor w h))) \<le> 50"
    using bound [of "initial_editor w h"] by (simp add: initial_editor_def)
  have keep: "\<forall>r \<in> set rs. is_undo_or_redo r \<Longrightarrow>
        undoStack (run_calls rs (execute c s)) @ rev (redoStack (run_calls rs (execute c s)))
          = undoStack (execute c s)"
    using undo_redo_calls_keep_entries [of rs "execute c s"] by (simp add: execute_stacks)
  have gone: "hd (undoStack s) \<notin> set (undoStack (run_calls rs (execute c s)))
        \<and> hd (undoStack s) \<notin> set (redoStack (run_calls rs (execute c s)))"
    if full: "length (undoStack s) = maxHistorySize s" and pos: "0 < maxHistorySize s"
      and dist: "distinct (undoStack s @ [c])" and rs: "\<forall>r \<in> set rs. is_undo_or_redo r"
  proof -
    from full pos obtain d ds where ds: "undoStack s = d # ds"
      by (cases "undoStack s") auto
    have "set (undoStack (run_calls rs (execute c s))) \<union> set (redoStack (run_calls rs (execute c s)))
          = set (undoStack (run_calls rs (execute c s)) @ rev (redoStack (run_calls rs (execute c s))))"
      by simp
    also have "\<dots> = set (undoStack (execute c s))"
      using keep [OF rs] by simp
    also have "\<dots> = set (ds @ [c])"
      using full ds by (simp add: execute_stacks)
    finally have "set (undoStack (run_calls rs (execute c s))) \<union> set (redoStack (run_calls rs (execute c s)))
          = set (ds @ [c])" .
    moreover have "d \<notin> set (ds @ [c])"
      using dist ds by auto
    ultimately show ?thesis
      using ds by auto
  qed
  show ?thesis
    using bound [of s] fresh keep gone by (simp add: execute_stacks)
qed

theorem undoStack_bounded_witness:
  "(let s = (initial_editor 800 600)\<lparr>undoStack := map (\<lambda>i. CreateSelection i None) [0..<50]\<rparr>;
        c = CreateSelection 50 None;
        rs = [Undo, Undo, Redo]
    in maxHistorySize s = 50 \<and> length (undoStack s) = 50 \<and> redoStack s = []
       \<and> distinct (undoStack s @ [c])
       \<and> hd (undoStack s) = CreateSelection 0 None
       \<and> length (undoStack (execute c s)) = 50
       \<and> undoStack (execute c s) = tl (undoStack s @ [c])
       \<and> redoStack (execute c s) = []
       \<and> CreateSelection 0 None \<notin> set (undoStack (run_calls rs (execute c s)))
       \<and> CreateSelection 0 None \<notin> set (redoStack (run_calls rs (execute c s)))
       \<and> length (undoStack (run_calls rs (execute c s))) \<le> 50)"
proof -
  define s where "s = (initial_editor 800 600)\<lparr>undoStack := map (\<lambda>i. CreateSelection i None) [0..<50]\<rparr>"
  define c where "c = CreateSelection 50 None"
  define rs where "rs = [Undo, Undo, Redo]"
  have m: "maxHistorySize s = 50" and l: "length (undoStack s) = 50" and r: "redoStack s = []"
    by (simp_all add: s_def initial_editor_def)
  have d: "distinct (undoStack s @ [c])"
    by (auto simp: s_def c_def distinct_map inj_on_def)
  have hd0: "hd (undoStack s) = CreateSelection 0 None"
    by (simp add: s_def upt_conv_Cons)
  have rsu: "\<forall>r \<in> set rs. is_undo_or_redo r"
    by (simp add: rs_def)
  have b: "length (undoStack (run_calls (Execute c # rs) s)) \<le> 50"
    using undoStack_bounded [of s "Execute c # rs" 0 0 c rs] m l r by simp
  show ?thesis
    using undoStack_bounded [of s "Execute c # rs" 0 0 c rs] m l r d hd0 rsu b
    unfolding s_def [symmetric] c_def [symmetric] rs_def [symmetric] Let_def
    by (simp add: run_calls_Cons)
qed

text \<open>
  Claim C5, as stated, at inputs where it fails. A layer gets a mask, which is visible.
  One \<open>execute\<close> of \<open>ToggleMaskAction\<close> hides the mask, a second one shows it again: the
  state after two calls is the state before the first, not the state after one.
  And on an empty canvas, a second \<open>execute\<close> of a \<open>CreateSelectionAction\<close> pushes the
  rectangle on the canvas's object array a second time.
\<close>

theorem toggle_apply_twice_differs:
  "map layer_mask (layers (action_execute (ToggleMask ''L1'')
        (action_execute (SetMask ''L1'' None (Some ''m''))
          (addLayer ''L1'' ''a.png'' (initial_editor 800 600)))))
     = [Some \<lparr>dataUrl = ''m'', mask_visible = False\<rparr>]
   \<and> map layer_mask (layers (action_execute (ToggleMask ''L1'') (action_execute (ToggleMask ''L1'')
        (action_execute (SetMask ''L1'' None (Some ''m''))
          (addLayer ''L1'' ''a.png'' (initial_editor 800 600))))))
     = [Some \<lparr>dataUrl = ''m'', mask_visible = True\<rparr>]
   \<and> action_execute (ToggleMask ''L1'') (action_execute (ToggleMask ''L1'')
        (action_execute (SetMask ''L1'' None (Some ''m''))
          (addLayer ''L1'' ''a.png'' (initial_editor 800 600))))
     \<noteq> action_execute (ToggleMask ''L1'')
        (action_execute (SetMask ''L1'' None (Some ''m''))
          (addLayer ''L1'' ''a.png'' (initial_editor 800 600)))
   \<and> objects (action_execute (CreateSelection 5 None) (initial_editor 800 600)) = [5]
   \<and> objects (action_execute (CreateSelection 5 None)
        (action_execute (CreateSelection 5 None) (initial_editor 800 600))) = [5, 5]"
proof -
  define s where "s = action_execute (SetMask ''L1'' None (Some ''m''))
          (addLayer ''L1'' ''a.png'' (initial_editor 800 600))"
  have once: "map layer_mask (layers (action_execute (ToggleMask ''L1'') s))
     = [Some \<lparr>dataUrl = ''m'', mask_visible = False\<rparr>]"
    by (simp add: s_def ToggleMaskAction_execute_def SetMaskAction_execute_def toggleLayerMask_def
        setLayerMask_def addLayer_def initial_editor_def)
  have twice: "map layer_mask (layers (action_execute (ToggleMask ''L1'')
       (action_execute (ToggleMask ''L1'') s)))
     = [Some \<lparr>dataUrl = ''m'', mask_visible = True\<rparr>]"
    unfolding toggle_execute_twice
    by (simp add: s_def SetMaskAction_execute_def setLayerMask_def addLayer_def initial_editor_def)
  have differ: "action_execute (ToggleMask ''L1'') (action_execute (ToggleMask ''L1'') s)
     \<noteq> action_execute (ToggleMask ''L1'') s"
  proof
    assume "action_execute (ToggleMask ''L1'') (action_execute (ToggleMask ''L1'') s)
      = action_execute (ToggleMask ''L1'') s"
    then have "map layer_mask (layers (action_execute (ToggleMask ''L1'')
       (action_execute (ToggleMask ''L1'') s)))
       = map layer_mask (layers (action_execute (ToggleMask ''L1'') s))"
      by simp
    with once twice show False by simp
  qed
  have sel: "objects (action_execute (CreateSelection 5 None) (initial_editor 800 600)) = [5]"
    "objects (action_execute (CreateSelection 5 None)
        (action_execute (CreateSelection 5 None) (initial_editor 800 600))) = [5, 5]"
    by (simp_all add: CreateSelectionAction_execute_def fabric_defs Let_def initial_editor_def)
  from once twice differ sel show ?thesis
    unfolding s_def by (intro conjI)
qed

text \<open>
  Claim C5, amended. For every command other than \<open>ToggleMaskAction\<close>, a second
  \<open>execute\<close> leaves the layer list, with the masks' data and visibility, as the first
  left it; for every command it leaves the drawables' properties, the selection
  reference and the layer bindings as the first left them. On a canvas that holds no
  drawable twice, the second \<open>execute\<close> leaves the same set of drawables on the canvas. It
  leaves the same object array for every command but a \<open>CreateSelectionAction\<close> and a
  \<open>CropAction\<close> with both images attached. These two push their drawable once more: after
  the second \<open>execute\<close> of a \<open>CreateSelectionAction\<close> whose previous selection is not its
  own rectangle the array is the one after the first with the rectangle appended, and
  after the second \<open>execute\<close> of a \<open>CropAction\<close> whose new image is neither its previous
  image nor its selection it is the one after the first with the new image appended.
  \<open>ToggleMaskAction\<close> is not idempotent: each \<open>execute\<close> negates the visibility of the mask
  of every layer that has the command's id and a mask, so that two of them give back the
  layer list from before the first, and where there is such a layer the state after two
  differs from the state after one.
\<close>

theorem apply_twice:
  "((\<forall>i. c \<noteq> ToggleMask i) \<longrightarrow>
      layers (action_execute c (action_execute c s)) = layers (action_execute c s))
   \<and> props (action_execute c (action_execute c s)) = props (action_execute c s)
   \<and> selectionRectRef (action_execute c (action_execute c s))
       = selectionRectRef (action_execute c s)
   \<and> layerMapRef (action_execute c (action_execute c s)) = layerMapRef (action_execute c s)
   \<and> (distinct (objects s) \<longrightarrow>
        set (objects (action_execute c (action_execute c s)))
          = set (objects (action_execute c s)))
   \<and> (distinct (objects s) \<and> (\<forall>r p. c \<noteq> CreateSelection r p)
        \<and> (\<forall>a. c = Crop a \<longrightarrow> crop_previousImage a = None \<or> crop_newImage a = None) \<longrightarrow>
        objects (action_execute c (action_execute c s)) = objects (action_execute c s))
   \<and> (distinct (objects s) \<and> p \<noteq> Some r \<longrightarrow>
        objects (action_execute (CreateSelection r p) (action_execute (CreateSelection r p) s))
          = objects (action_execute (CreateSelection r p) s) @ [r])
   \<and> (distinct (objects s) \<and> crop_previousImage a = Some pv \<and> crop_newImage a = Some nw
        \<and> nw \<noteq> pv \<and> nw \<noteq> crop_selection a \<longrightarrow>
        objects (action_execute (Crop a) (action_execute (Crop a) s))
          = objects (action_execute (Crop a) s) @ [nw])
   \<and> layers (action_execute (ToggleMask i) (action_execute (ToggleMask i) s)) = layers s
   \<and> length (layers (action_execute (ToggleMask i) s)) = length (layers s)
   \<and> (\<forall>k < length (layers s). \<forall>m.
         layer_id (layers s ! k) = i \<and> layer_mask (layers s ! k) = Some m \<longrightarrow>
         layer_mask (layers (action_execute (ToggleMask i) s) ! k)
           = Some (m\<lparr>mask_visible := \<not> mask_visible m\<rparr>))
   \<and> ((\<exists>l \<in> set (layers s). layer_id l = i \<and> layer_mask l \<noteq> None) \<longrightarrow>
        action_execute (ToggleMask i) (action_execute (ToggleMask i) s)
          \<noteq> action_execute (ToggleMask i) s)"
proof -
  have "length (layers (action_execute (ToggleMask i) s)) = length (layers s)"
    by (simp add: ToggleMaskAction_execute_def toggleLayerMask_def)
  moreover have "\<forall>k < length (layers s). \<forall>m.
         layer_id (layers s ! k) = i \<and> layer_mask (layers s ! k) = Some m \<longrightarrow>
         layer_mask (layers (action_execute (ToggleMask i) s) ! k)
           = Some (m\<lparr>mask_visible := \<not> mask_visible m\<rparr>)"
    using toggle_negates [of _ s i] by blast
  moreover have "(\<exists>l \<in> set (layers s). layer_id l = i \<and> layer_mask l \<noteq> None) \<longrightarrow>
        action_execute (ToggleMask i) (action_execute (ToggleMask i) s)
          \<noteq> action_execute (ToggleMask i) s"
    using toggle_changes [of _ s i] by blast
  moreover have "distinct (objects s) \<and> p \<noteq> Some r \<longrightarrow>
        objects (action_execute (CreateSelection r p) (action_execute (CreateSelection r p) s))
          = objects (action_execute (CreateSelection r p) s) @ [r]"
    using create_twice_objects [of s p r] by blast
  moreover have "distinct (objects s) \<and> crop_previousImage a = Some pv
        \<and> crop_newImage a = Some nw \<and> nw \<noteq> pv \<and> nw \<noteq> crop_selection a \<longrightarrow>
        objects (action_execute (Crop a) (action_execute (Crop a) s))
          = objects (action_execute (Crop a) s) @ [nw]"
    using crop_twice_objects [of s a pv nw] by blast
  moreover have "distinct (objects s) \<and> (\<forall>r p. c \<noteq> CreateSelection r p)
        \<and> (\<forall>a. c = Crop a \<longrightarrow> crop_previousImage a = None \<or> crop_newImage a = None) \<longrightarrow>
        objects (action_execute c (action_execute c s)) = objects (action_execute c s)"
    using execute_twice_objects [of s c] by blast
  moreover have "distinct (objects s) \<longrightarrow>
        set (objects (action_execute c (action_execute c s)))
          = set (objects (action_execute c s))"
    using execute_twice_set [of s c] by blast
  moreover have "(\<forall>i. c \<noteq> ToggleMask i) \<longrightarrow>
      layers (action_execute c (action_execute c s)) = layers (action_execute c s)"
    using execute_twice_layers [of c s] by blast
  ultimately show ?thesis
    using execute_twice_fields(1-3) [of c s] toggle_execute_twice [of i s]
    by (intro conjI)
qed

theorem apply_twice_witness:
  "(let s = drag None (100, 50) [(500, 350)]
              (setActiveTool Select
                (addImageLayer ''L1'' ''a.png'' 1000 800 (initial_editor 1000 800)));
        c = ClearSelection 1;
        a = \<lparr>oldViewportTransform = [1, 0, 0, 1, 0, 0],
             newViewportTransform = [1, 0, 0, 1, 0, 0],
             oldWidth = 1000, oldHeight = 800, newWidth = 400, newHeight = 300,
             oldDocOrigin = \<lparr>origin_x = 0, origin_y = 0\<rparr>,
             newDocOrigin = \<lparr>origin_x = 100, origin_y = 50\<rparr>,
             objectPositions = [\<lparr>pos_object = 0, pos_left = 0, pos_top = 0\<rparr>],
             cropOffsetX = 100, cropOffsetY = 50,
             crop_previousImage = Some 0, crop_newImage = Some 2,
             crop_activeLayerId = Some ''L1'', crop_selection = 1\<rparr>
    in objects s = [0, 1] \<and> distinct (objects s)
       \<and> objects (action_execute c s) = [0]
       \<and> objects (action_execute c (action_execute c s)) = [0]
       \<and> layers (action_execute c (action_execute c s)) = layers (action_execute c s)
       \<and> selectionRectRef (action_execute c (action_execute c s)) = None
       \<and> objects (action_execute (Crop a) s) = [2]
       \<and> objects (action_execute (Crop a) (action_execute (Crop a) s)) = [2, 2])
   \<and> (let s = initial_editor 800 600;
          c = CreateSelection 5 None
      in distinct (objects s)
         \<and> objects (action_execute c s) = [5]
         \<and> objects (action_execute c (action_execute c s)) = [5, 5])
   \<and> (let s = action_execute (SetMask ''L1'' None (Some ''m''))
                (addLayer ''L1'' ''a.png'' (initial_editor 800 600));
          c = ToggleMask ''L1''
      in map layer_mask (layers s) = [Some \<lparr>dataUrl = ''m'', mask_visible = True\<rparr>]
         \<and> layer_mask (layers (action_execute c s) ! 0)
             = Some \<lparr>dataUrl = ''m'', mask_visible = False\<rparr>
         \<and> layers (action_execute c (action_execute c s)) = layers s
         \<and> action_execute c (action_execute c s) \<noteq> action_execute c s)"
proof -
  define s0 where "s0 = setActiveTool Select
               (addImageLayer ''L1'' ''a.png'' 1000 800 (initial_editor 1000 800))"
  define s1 where "s1 = drag None (100, 50) [(500, 350)] s0"
  define a where "a = \<lparr>oldViewportTransform = [1, 0, 0, 1, 0, 0::real],
             newViewportTransform = [1, 0, 0, 1, 0, 0::real],
             oldWidth = 1000, oldHeight = 800, newWidth = 400, newHeight = 300,
             oldDocOrigin = \<lparr>origin_x = 0, origin_y = 0\<rparr>,
             newDocOrigin = \<lparr>origin_x = 100, origin_y = 50\<rparr>,
             objectPositions = [\<lparr>pos_object = 0, pos_left = 0, pos_top = 0\<rparr>],
             cropOffsetX = 100, cropOffsetY = 50,
             crop_previousImage = Some 0, crop_newImage = Some 2,
             crop_activeLayerId = Some ''L1'', crop_selection = 1\<rparr>"
  have r: "activeToolRef s0 = Select \<or> activeToolRef s0 = CropTool"
    "getActiveImageObject s0 \<noteq> None" "None = None \<or> None \<noteq> selectionRectRef s0"
    and r': "undoStack s0 = []" "maxHistorySize s0 = 50" "nextObject s0 = 1"
      "objects s0 = [0]" "selectionRectRef s0 = None"
    by (simp_all add: s0_def sample_ready)
  have big: "5 \<le> \<bar>fst (last [(100, 50), (500, 350)]) - fst (100::real, 50::real)\<bar>"
    "5 \<le> \<bar>snd (last [(100, 50), (500, 350)]) - snd (100::real, 50::real)\<bar>"
    "0 < maxHistorySize (mouse_moves [(500, 350)] (mouse_down None (100, 50) s0))"
    by (simp_all add: r' mouse_moves_frame mouse_down_drawing [OF r])
  note st = drag_state [OF r, of "[(500, 350)]" "(100, 50)"]
  have w: "5 \<le> width (props (mouse_moves [(500, 350)] (mouse_down None (100, 50) s0)) (nextObject s0))"
    "5 \<le> height (props (mouse_moves [(500, 350)] (mouse_down None (100, 50) s0)) (nextObject s0))"
    using st(3,4) by simp_all
  from mouse_up_big [OF st(1,2) w big(3)]
  have objs: "objects s1 = [0, 1]"
    by (simp add: s1_def drag_def mouse_moves_frame mouse_down_drawing [OF r] r')
  then have d: "distinct (objects s1)"
    by simp
  have once: "objects (action_execute (ClearSelection 1) s1) = [0]"
    by (simp add: ClearSelectionAction_execute_def fabric_defs objs)
  have none: "selectionRectRef (action_execute (ClearSelection 1) s1) = None"
    by (simp add: ClearSelectionAction_execute_def fabric_defs)
  have cropped: "objects (action_execute (Crop a) s1) = [2]"
    by (simp add: CropAction_execute_def fabric_defs Let_def objs a_def)
  have fields: "crop_previousImage a = Some 0" "crop_newImage a = Some 2"
    "(2::nat) \<noteq> 0" "2 \<noteq> crop_selection a"
    by (simp_all add: a_def)
  from apply_twice [of "ClearSelection 1" s1 None 5 a 0 2 "''L1''"] d once none cropped fields
  have first: "objects s1 = [0, 1] \<and> distinct (objects s1)
       \<and> objects (action_execute (ClearSelection 1) s1) = [0]
       \<and> objects (action_execute (ClearSelection 1) (action_execute (ClearSelection 1) s1)) = [0]
       \<and> layers (action_execute (ClearSelection 1) (action_execute (ClearSelection 1) s1))
           = layers (action_execute (ClearSelection 1) s1)
       \<and> selectionRectRef (action_execute (ClearSelection 1)
           (action_execute (ClearSelection 1) s1)) = None
       \<and> objects (action_execute (Crop a) s1) = [2]
       \<and> objects (action_execute (Crop a) (action_execute (Crop a) s1)) = [2, 2]"
    using objs by simp
  have e: "distinct (objects (initial_editor 800 600))"
    "objects (action_execute (CreateSelection 5 None) (initial_editor 800 600)) = [5]"
    by (simp_all add: initial_editor_def CreateSelectionAction_execute_def fabric_defs Let_def)
  from apply_twice [of "CreateSelection 5 None" "initial_editor 800 600" None 5 a 0 2 "''L1''"] e
  have second: "distinct (objects (initial_editor 800 600))
         \<and> objects (action_execute (CreateSelection 5 None) (initial_editor 800 600)) = [5]
         \<and> objects (action_execute (CreateSelection 5 None)
               (action_execute (CreateSelection 5 None) (initial_editor 800 600))) = [5, 5]"
    by simp
  define t where "t = action_execute (SetMask ''L1'' None (Some ''m''))
                (addLayer ''L1'' ''a.png'' (initial_editor 800 600))"
  have t: "map layer_mask (layers t) = [Some \<lparr>dataUrl = ''m'', mask_visible = True\<rparr>]"
    "map layer_id (layers t) = [''L1'']"
    by (simp_all add: t_def SetMaskAction_execute_def setLayerMask_def addLayer_def
        initial_editor_def)
  then obtain l where l: "layers t = [l]" "layer_id l = ''L1''"
    "layer_mask l = Some \<lparr>dataUrl = ''m'', mask_visible = True\<rparr>"
    by (cases "layers t") auto
  from apply_twice [of "ToggleMask ''L1''" t None 5 a 0 2 "''L1''"] l
  have third: "map layer_mask (layers t) = [Some \<lparr>dataUrl = ''m'', mask_visible = True\<rparr>]
         \<and> layer_mask (layers (action_execute (ToggleMask ''L1'') t) ! 0)
             = Some \<lparr>dataUrl = ''m'', mask_visible = False\<rparr>
         \<and> layers (action_execute (ToggleMask ''L1'')
               (action_execute (ToggleMask ''L1'') t)) = layers t
         \<and> action_execute (ToggleMask ''L1'') (action_execute (ToggleMask ''L1'') t)
             \<noteq> action_execute (ToggleMask ''L1'') t"
    by (simp del: action_execute.simps)
  from first second third show ?thesis
    unfolding Let_def a_def [symmetric] s0_def [symmetric] s1_def [symmetric] t_def [symmetric]
    by (elim conjE, intro conjI) assumption+
qed

text \<open>
  Claim C6. A \<open>mouse:up\<close> that ends a drawing (\<open>isDrawing\<close> set, a rectangle in progress)
  looks at the rectangle's width and height. When one of them is below 5, the rectangle
  is removed from the canvas and the drawing ends, and that is all: the state is otherwise
  the same, so the stacks, the selection reference and the notifications are untouched.
  Otherwise the rectangle becomes the selection and one \<open>CreateSelection\<close> command for
  it is executed through the history manager: it is the newest entry of the undo stack,
  which is the old stack with this one command appended (the oldest entry dropped when the
  stack was full). For a whole drag from \<open>p\<close> the rectangle's size is the distance between
  \<open>p\<close> and the last pointer position in each dimension, so a drag shorter than 5 in a
  dimension leaves both stacks as they were and no selection, and any other drag records
  exactly one command.
\<close>

theorem small_selection_discarded:
  "(isDrawing s \<and> tempSelection s = Some r \<and> (width (props s r) < 5 \<or> height (props s r) < 5) \<longrightarrow>
      mouse_up s = (canvas_remove r s)\<lparr>isDrawing := False, tempSelection := None\<rparr>
      \<and> undoStack (mouse_up s) = undoStack s \<and> redoStack (mouse_up s) = redoStack s
      \<and> historyNotices (mouse_up s) = historyNotices s
      \<and> selectionRectRef (mouse_up s) = selectionRectRef s
      \<and> selectionNotice (mouse_up s) = selectionNotice s)
   \<and> (isDrawing s \<and> tempSelection s = Some r \<and> 5 \<le> width (props s r) \<and> 5 \<le> height (props s r)
        \<and> 0 < maxHistorySize s \<longrightarrow>
      undoStack (mouse_up s)
        = (if length (undoStack s) < maxHistorySize s then undoStack s @ [CreateSelection r None]
           else tl (undoStack s) @ [CreateSelection r None])
      \<and> redoStack (mouse_up s) = []
      \<and> selectionRectRef (mouse_up s) = Some r
      \<and> objects (mouse_up s) = remove1 r (objects s) @ [r])
   \<and> ((activeToolRef s = Select \<or> activeToolRef s = CropTool) \<and> getActiveImageObject s \<noteq> None
        \<and> (target = None \<or> target \<noteq> selectionRectRef s)
        \<and> (\<bar>fst (last (p # qs)) - fst p\<bar> < 5 \<or> \<bar>snd (last (p # qs)) - snd p\<bar> < 5) \<longrightarrow>
      undoStack (drag target p qs s) = undoStack s \<and> redoStack (drag target p qs s) = redoStack s
      \<and> historyNotices (drag target p qs s) = historyNotices s
      \<and> selectionRectRef (drag target p qs s) = None)
   \<and> ((activeToolRef s = Select \<or> activeToolRef s = CropTool) \<and> getActiveImageObject s \<noteq> None
        \<and> (target = None \<or> target \<noteq> selectionRectRef s)
        \<and> 5 \<le> \<bar>fst (last (p # qs)) - fst p\<bar> \<and> 5 \<le> \<bar>snd (last (p # qs)) - snd p\<bar>
        \<and> length (undoStack s) < maxHistorySize s \<longrightarrow>
      undoStack (drag target p qs s) = undoStack s @ [CreateSelection (nextObject s) None]
      \<and> selectionRectRef (drag target p qs s) = Some (nextObject s))"
proof -
  have c1: "isDrawing s \<and> tempSelection s = Some r
        \<and> (width (props s r) < 5 \<or> height (props s r) < 5) \<longrightarrow>
      mouse_up s = (canvas_remove r s)\<lparr>isDrawing := False, tempSelection := None\<rparr>
      \<and> undoStack (mouse_up s) = undoStack s \<and> redoStack (mouse_up s) = redoStack s
      \<and> historyNotices (mouse_up s) = historyNotices s
      \<and> selectionRectRef (mouse_up s) = selectionRectRef s
      \<and> selectionNotice (mouse_up s) = selectionNotice s"
    by (intro impI, elim conjE, rule mouse_up_small) assumption+
  have c2: "isDrawing s \<and> tempSelection s = Some r \<and> 5 \<le> width (props s r)
        \<and> 5 \<le> height (props s r) \<and> 0 < maxHistorySize s \<longrightarrow>
      undoStack (mouse_up s)
        = (if length (undoStack s) < maxHistorySize s then undoStack s @ [CreateSelection r None]
           else tl (undoStack s) @ [CreateSelection r None])
      \<and> redoStack (mouse_up s) = []
      \<and> selectionRectRef (mouse_up s) = Some r
      \<and> objects (mouse_up s) = remove1 r (objects s) @ [r]"
    by (intro impI, elim conjE, rule mouse_up_big) assumption+
  have c3: "(activeToolRef s = Select \<or> activeToolRef s = CropTool)
        \<and> getActiveImageObject s \<noteq> None
        \<and> (target = None \<or> target \<noteq> selectionRectRef s)
        \<and> (\<bar>fst (last (p # qs)) - fst p\<bar> < 5 \<or> \<bar>snd (last (p # qs)) - snd p\<bar> < 5) \<longrightarrow>
      undoStack (drag target p qs s) = undoStack s \<and> redoStack (drag target p qs s) = redoStack s
      \<and> historyNotices (drag target p qs s) = historyNotices s
      \<and> selectionRectRef (drag target p qs s) = None"
    by (intro impI, elim conjE, rule drag_short) assumption+
  have c4: "(activeToolRef s = Select \<or> activeToolRef s = CropTool)
        \<and> getActiveImageObject s \<noteq> None
        \<and> (target = None \<or> target \<noteq> selectionRectRef s)
        \<and> 5 \<le> \<bar>fst (last (p # qs)) - fst p\<bar> \<and> 5 \<le> \<bar>snd (last (p # qs)) - snd p\<bar>
        \<and> length (undoStack s) < maxHistorySize s \<longrightarrow>
      undoStack (drag target p qs s) = undoStack s @ [CreateSelection (nextObject s) None]
      \<and> selectionRectRef (drag target p qs s) = Some (nextObject s)"
    by (intro impI, elim conjE, rule drag_long) assumption+
  from c1 c2 c3 c4 show ?thesis
    by (intro conjI)
qed

theorem small_selection_discarded_witness:
  "(let s = setActiveTool Select (addImageLayer ''L1'' ''a.png'' 1000 800 (initial_editor 1000 800))
    in undoStack s = [] \<and> redoStack s = [] \<and> maxHistorySize s = 50 \<and> nextObject s = 1
       \<and> undoStack (drag None (100, 100) [(102, 101), (103, 103)] s) = []
       \<and> redoStack (drag None (100, 100) [(102, 101), (103, 103)] s) = []
       \<and> selectionRectRef (drag None (100, 100) [(102, 101), (103, 103)] s) = None
       \<and> undoStack (drag None (100, 100) [(104, 108), (110, 110)] s) = [CreateSelection 1 None]
       \<and> selectionRectRef (drag None (100, 100) [(104, 108), (110, 110)] s) = Some 1)"
proof -
  define s where "s = setActiveTool Select (addImageLayer ''L1'' ''a.png'' 1000 800 (initial_editor 1000 800))"
  have r: "activeToolRef s = Select" "getActiveImageObject s \<noteq> None" "selectionRectRef s = None"
    "undoStack s = []" "redoStack s = []" "maxHistorySize s = 50" "nextObject s = 1"
    by (simp_all add: s_def sample_ready)
  show ?thesis
    unfolding s_def [symmetric] Let_def
    using r small_selection_discarded [of s 0 None "(100, 100)" "[(102, 101), (103, 103)]"]
      small_selection_discarded [of s 0 None "(100, 100)" "[(104, 108), (110, 110)]"]
    by simp
qed

text \<open>
  Claim C7, at the input where the code departs from it. With the select tool and one
  image layer, a drag that starts at \<open>(100, 100)\<close>, goes up and left to \<open>(90, 90)\<close> and
  then down and right to \<open>(110, 110)\<close> leaves the rectangle in progress at left 90, top
  90, width 10, height 10: the first move set \<open>left\<close> and \<open>top\<close> to the pointer, and the
  second, with a non-negative width and height, does not set them back to the anchor. So
  \<open>left\<close> is not \<open>min(startX, pointer.x)\<close> and \<open>top\<close> is not \<open>min(startY, pointer.y)\<close>.
\<close>

theorem mouse_move_left_not_min:
  "(let s0 = setActiveTool Select (addImageLayer ''L1'' ''a.png'' 1000 800 (initial_editor 1000 800));
        s = mouse_moves [(90, 90), (110, 110)] (mouse_down None (100, 100) s0)
    in isDrawing s \<and> tempSelection s = Some 1 \<and> startX s = 100 \<and> startY s = 100
       \<and> left (props s 1) = 90 \<and> top' (props s 1) = 90
       \<and> width (props s 1) = 10 \<and> height (props s 1) = 10
       \<and> left (props s 1) \<noteq> min (startX s) 110
       \<and> top' (props s 1) \<noteq> min (startY s) 110)"
proof -
  define s0 where "s0 = setActiveTool Select (addImageLayer ''L1'' ''a.png'' 1000 800 (initial_editor 1000 800))"
  define s1 where "s1 = mouse_down None (100, 100) s0"
  define s2 where "s2 = mouse_move (90, 90) s1"
  define s3 where "s3 = mouse_move (110, 110) s2"
  have ready: "activeToolRef s0 = Select \<or> activeToolRef s0 = CropTool"
    "getActiveImageObject s0 \<noteq> None" "None = None \<or> None \<noteq> selectionRectRef s0"
    "nextObject s0 = 1"
    by (simp_all add: s0_def sample_ready)
  note d = mouse_down_drawing [OF ready(1,2,3), of "(100, 100)", folded s1_def, unfolded ready(4)]
  have d1: "isDrawing s1" "tempSelection s1 = Some 1" "startX s1 = 100" "startY s1 = 100"
    "props s1 1 = \<lparr>left = 100, top' = 100, scaleX = 1, scaleY = 1, width = 0, height = 0\<rparr>"
    using d by simp_all
  have d2: "isDrawing s2" "tempSelection s2 = Some 1" "startX s2 = 100" "startY s2 = 100"
    "props s2 1 = \<lparr>left = 90, top' = 90, scaleX = 1, scaleY = 1, width = 10, height = 10\<rparr>"
    using d1 by (simp_all add: s2_def mouse_move_frame mouse_move_props)
  have d3: "isDrawing s3" "tempSelection s3 = Some 1" "startX s3 = 100" "startY s3 = 100"
    "props s3 1 = \<lparr>left = 90, top' = 90, scaleX = 1, scaleY = 1, width = 10, height = 10\<rparr>"
    using d2 by (simp_all add: s3_def mouse_move_frame mouse_move_props)
  have "mouse_moves [(90, 90), (110, 110)] (mouse_down None (100, 100) s0) = s3"
    by (simp add: mouse_moves_Cons mouse_moves_Nil s3_def s2_def s1_def)
  then show ?thesis
    unfolding s0_def [symmetric] Let_def using d3 by simp
qed

text \<open>
  Claim C9, as stated, at an input where it fails. An image layer has been added and no
  selection drawn; \<open>crop(-1, 10, 0, 0)\<close> has a non-positive width. The call returns at the
  first test, on \<open>selectionRectRef\<close>, before the test of the dimensions: nothing is
  changed, and nothing is reported either.
\<close>

theorem crop_invalid_not_reported:
  "snd (crop (-1) 10 0 0 (addImageLayer ''L1'' ''a.png'' 1000 800 (initial_editor 1000 800)))
     = addImageLayer ''L1'' ''a.png'' 1000 800 (initial_editor 1000 800)
   \<and> fst (crop (-1) 10 0 0 (addImageLayer ''L1'' ''a.png'' 1000 800 (initial_editor 1000 800)))
       = Returned_silently
   \<and> fst (crop (-1) 10 0 0 (addImageLayer ''L1'' ''a.png'' 1000 800 (initial_editor 1000 800)))
       \<noteq> Reported ''Invalid crop dimensions''"
  by (simp add: crop_def addImageLayer_def addLayer_def updateLayerMap_def canvas_add_def
      initial_editor_def Let_def)

text \<open>
  Claim C9, amended. A call of \<open>crop\<close> with a non-positive width or height returns the
  state exactly as it was: no drawable is added or removed, the canvas size and the
  document origin are the same, and both history stacks are the same, so no command is
  recorded. When there is a current selection rectangle the call reports
  \<open>Invalid crop dimensions\<close> on the console and returns; when there is none it returns
  without a report.
\<close>

theorem crop_rejects_invalid:
  "w \<le> 0 \<or> h \<le> 0 \<longrightarrow>
     snd (crop w h x y s) = s
     \<and> objects (snd (crop w h x y s)) = objects s
     \<and> layerMapRef (snd (crop w h x y s)) = layerMapRef s
     \<and> canvas_width (snd (crop w h x y s)) = canvas_width s
     \<and> canvas_height (snd (crop w h x y s)) = canvas_height s
     \<and> documentOriginRef (snd (crop w h x y s)) = documentOriginRef s
     \<and> undoStack (snd (crop w h x y s)) = undoStack s
     \<and> redoStack (snd (crop w h x y s)) = redoStack s
     \<and> fst (crop w h x y s)
         = (case selectionRectRef s of
              None \<Rightarrow> Returned_silently
            | Some r \<Rightarrow> Reported ''Invalid crop dimensions'')"
  using crop_invalid [of w h x y s] by simp

theorem crop_rejects_invalid_witness:
  "(let s = drag None (100, 50) [(500, 350)]
              (setActiveTool CropTool
                (addImageLayer ''L1'' ''a.png'' 1000 800 (initial_editor 1000 800)))
    in selectionRectRef s = Some 1
       \<and> ((-400::real) \<le> 0 \<or> (300::real) \<le> 0)
       \<and> snd (crop (-400) 300 100 50 s) = s
       \<and> undoStack (snd (crop (-400) 300 100 50 s)) = undoStack s
       \<and> fst (crop (-400) 300 100 50 s) = Reported ''Invalid crop dimensions''
       \<and> snd (crop 400 0 100 50 s) = s
       \<and> fst (crop 400 0 100 50 s) = Reported ''Invalid crop dimensions'')"
proof -
  define s0 where "s0 = setActiveTool CropTool
               (addImageLayer ''L1'' ''a.png'' 1000 800 (initial_editor 1000 800))"
  define s1 where "s1 = drag None (100, 50) [(500, 350)] s0"
  have r: "activeToolRef s0 = Select \<or> activeToolRef s0 = CropTool"
    "getActiveImageObject s0 \<noteq> None" "None = None \<or> None \<noteq> selectionRectRef s0"
    and r': "undoStack s0 = []" "maxHistorySize s0 = 50" "nextObject s0 = 1"
    by (simp_all add: s0_def sample_ready)
  have big: "5 \<le> \<bar>fst (last [(100, 50), (500, 350)]) - fst (100::real, 50::real)\<bar>"
    "5 \<le> \<bar>snd (last [(100, 50), (500, 350)]) - snd (100::real, 50::real)\<bar>"
    "length (undoStack s0) < maxHistorySize s0"
    by (simp_all add: r')
  from drag_long [OF r big]
  have sel: "selectionRectRef s1 = Some 1"
    by (simp_all add: s1_def r')
  show ?thesis
    unfolding Let_def s0_def [symmetric] s1_def [symmetric]
    using sel crop_rejects_invalid [of "-400" 300 100 50 s1]
      crop_rejects_invalid [of 400 0 100 50 s1]
    by simp
qed

text \<open>
  Claim C10. \<open>ToggleMaskAction.undo\<close> does what \<open>ToggleMaskAction.execute\<close> does, one call
  of \<open>toggleLayerMask\<close>. Toggling the same layer id twice gives back the layer list. When
  no layer with that id has a mask (in particular when no layer has that id) one toggle
  leaves the list as it is. In every case the list keeps its length, a layer with another
  id is untouched, and a layer differs from the original at most in the \<open>visible\<close> flag of
  its mask: all its other fields and the mask's data are the same.
\<close>

theorem toggleLayerMask_involution:
  "ToggleMaskAction_undo i s = ToggleMaskAction_execute i s
   \<and> toggleLayerMask i (toggleLayerMask i ls) = ls
   \<and> ((\<forall>l \<in> set ls. layer_id l = i \<longrightarrow> layer_mask l = None) \<longrightarrow> toggleLayerMask i ls = ls)
   \<and> length (toggleLayerMask i ls) = length ls
   \<and> (\<forall>k < length ls.
         (layer_id (ls ! k) \<noteq> i \<longrightarrow> toggleLayerMask i ls ! k = ls ! k)
         \<and> (toggleLayerMask i ls ! k)\<lparr>layer_mask := None\<rparr> = (ls ! k)\<lparr>layer_mask := None\<rparr>
         \<and> map_option dataUrl (layer_mask (toggleLayerMask i ls ! k))
             = map_option dataUrl (layer_mask (ls ! k)))"
proof -
  have "ToggleMaskAction_undo i s = ToggleMaskAction_execute i s"
    by (simp add: ToggleMaskAction_undo_def ToggleMaskAction_execute_def)
  moreover have "length (toggleLayerMask i ls) = length ls"
    by (simp add: toggleLayerMask_def)
  ultimately show ?thesis
    using toggle_twice [of i ls] toggle_without_mask [of ls i] toggle_nth [of _ ls i]
    by blast
qed

theorem toggleLayerMask_involution_witness:
  "(let ls = setLayerMask ''L2'' (Some ''m'')
               (layers (addLayer ''L1'' ''a'' (addLayer ''L2'' ''b'' (initial_editor 0 0))))
    in map layer_id ls = [''L1'', ''L2'']
       \<and> map layer_mask ls = [None, Some \<lparr>dataUrl = ''m'', mask_visible = True\<rparr>]
       \<and> toggleLayerMask ''L1'' ls = ls
       \<and> toggleLayerMask ''L3'' ls = ls
       \<and> map layer_mask (toggleLayerMask ''L2'' ls)
           = [None, Some \<lparr>dataUrl = ''m'', mask_visible = False\<rparr>]
       \<and> toggleLayerMask ''L2'' (toggleLayerMask ''L2'' ls) = ls
       \<and> toggleLayerMask ''L2'' ls ! 0 = ls ! 0)"
  using toggleLayerMask_involution
    [of "''L2''" "initial_editor 0 0"
        "setLayerMask ''L2'' (Some ''m'')
           (layers (addLayer ''L1'' ''a'' (addLayer ''L2'' ''b'' (initial_editor 0 0))))"]
  by (simp add: toggleLayerMask_def setLayerMask_def addLayer_def initial_editor_def Let_def)

end
